theory Spec2Isabelle
  imports Complex_Main
begin

section \<open>JavaScript values\<close>

text \<open>
  The server keeps its collections as arrays of plain objects built from parsed JSON
  request bodies. A value is what such an object can hold: the JSON values, and
  \<open>undefined\<close>, which is what reading a property that is not there gives and what the
  handlers then store. Strings are held as their UTF-8 bytes; a number is the finite
  number it denotes.
\<close>

datatype jsval =
    JUndefined
  | JNull
  | JBool bool
  | JNum rat
  | JStr string
  | JArr "jsval list"
  | JObj "(string \<times> jsval) list"

text \<open>
  An object is the list of its own properties, in the order they were added; the names
  in it are distinct. A request body is the object \<open>express.json()\<close> parsed, the empty
  object when the request has none.
\<close>

type_synonym obj = "(string \<times> jsval) list"

text \<open>Truthiness, as \<open>if (v)\<close>, \<open>!v\<close> and \<open>v || d\<close> test it.\<close>

fun truthy :: "jsval \<Rightarrow> bool" where
  "truthy JUndefined = False"
| "truthy JNull = False"
| "truthy (JBool b) = b"
| "truthy (JNum n) = (n \<noteq> 0)"
| "truthy (JStr s) = (s \<noteq> [])"
| "truthy (JArr xs) = True"
| "truthy (JObj ps) = True"

text \<open>
  \<open>a === b\<close>. Every comparison in the server has one operand from the request being
  handled and the other from the store, so two arrays or two objects are never the same
  reference and compare unequal.
\<close>

fun strict_eq :: "jsval \<Rightarrow> jsval \<Rightarrow> bool" where
  "strict_eq JUndefined JUndefined = True"
| "strict_eq JNull JNull = True"
| "strict_eq (JBool a) (JBool b) = (a = b)"
| "strict_eq (JNum a) (JNum b) = (a = b)"
| "strict_eq (JStr a) (JStr b) = (a = b)"
| "strict_eq _ _ = False"

text \<open>\<open>a || b\<close>\<close>

definition or_else :: "jsval \<Rightarrow> jsval \<Rightarrow> jsval" where
  "or_else a b = (if truthy a then a else b)"

text \<open>
  \<open>o.k\<close>: the value of the object's own property, \<open>undefined\<close> when it has none
  (the handlers read only \<open>id\<close>, \<open>name\<close>, \<open>bookedBy\<close>, \<open>pin\<close> and the fields of a
  request body, none of which \<open>Object.prototype\<close> provides).
\<close>

definition get_prop :: "obj \<Rightarrow> string \<Rightarrow> jsval" where
  "get_prop ob k = (case map_of ob k of None \<Rightarrow> JUndefined | Some v \<Rightarrow> v)"

text \<open>\<open>o.k = v\<close>: overwrites the property in place, or adds it after the others.\<close>

fun set_prop :: "string \<Rightarrow> jsval \<Rightarrow> obj \<Rightarrow> obj" where
  "set_prop k v [] = [(k, v)]"
| "set_prop k v (p # ps) = (if fst p = k then (k, v) # ps else p # set_prop k v ps)"

text \<open>
  \<open>Object.assign(target, source)\<close>: each property of the source is assigned to the
  target, in order. Assigning to \<open>__proto__\<close> runs the inherited setter, which changes
  no own property of the target.
\<close>

definition assign :: "obj \<Rightarrow> obj \<Rightarrow> obj" where
  "assign target source =
     fold (\<lambda>(k, v) t. if k = ''__proto__'' then t else set_prop k v t) source target"

subsection \<open>\<open>String.prototype.trim\<close>\<close>

text \<open>The white space and line terminator code points, in UTF-8.\<close>

definition white_space :: "string list" where
  "white_space =
    [[CHR 0x09], [CHR 0x0A], [CHR 0x0B], [CHR 0x0C], [CHR 0x0D], [CHR 0x20],
     [CHR 0xC2, CHR 0xA0],
     [CHR 0xE1, CHR 0x9A, CHR 0x80],
     [CHR 0xE2, CHR 0x80, CHR 0x80], [CHR 0xE2, CHR 0x80, CHR 0x81],
     [CHR 0xE2, CHR 0x80, CHR 0x82], [CHR 0xE2, CHR 0x80, CHR 0x83],
     [CHR 0xE2, CHR 0x80, CHR 0x84], [CHR 0xE2, CHR 0x80, CHR 0x85],
     [CHR 0xE2, CHR 0x80, CHR 0x86], [CHR 0xE2, CHR 0x80, CHR 0x87],
     [CHR 0xE2, CHR 0x80, CHR 0x88], [CHR 0xE2, CHR 0x80, CHR 0x89],
     [CHR 0xE2, CHR 0x80, CHR 0x8A],
     [CHR 0xE2, CHR 0x80, CHR 0xA8], [CHR 0xE2, CHR 0x80, CHR 0xA9],
     [CHR 0xE2, CHR 0x80, CHR 0xAF],
     [CHR 0xE2, CHR 0x81, CHR 0x9F],
     [CHR 0xE3, CHR 0x80, CHR 0x80],
     [CHR 0xEF, CHR 0xBB, CHR 0xBF]]"

text \<open>Removes the leading occurrences of the given (non-empty) byte sequences.\<close>

function strip :: "string list \<Rightarrow> string \<Rightarrow> string" where
  "strip ws s =
     (case List.find (\<lambda>w. w \<noteq> [] \<and> take (length w) s = w) ws of
        None \<Rightarrow> s
      | Some w \<Rightarrow> strip ws (drop (length w) s))"
  by pat_completeness auto
termination
proof (relation "measure (\<lambda>(ws, s). length s)")
  show "wf (measure (\<lambda>(ws, s). length s))" by simp
next
  fix ws :: "string list" and s w :: string
  assume "List.find (\<lambda>w. w \<noteq> [] \<and> take (length w) s = w) ws = Some w"
  then have w: "w \<noteq> []" "take (length w) s = w"
    by (auto simp: find_Some_iff)
  then have "s \<noteq> []" by auto
  with w show "((ws, drop (length w) s), (ws, s)) \<in> measure (\<lambda>(ws, s). length s)"
    by (cases w) auto
qed

declare strip.simps [simp del]

definition trim :: "string \<Rightarrow> string" where
  "trim s = rev (strip (map rev white_space) (rev (strip white_space s)))"

section \<open>The server's state\<close>

datatype error = BadRequest | Forbidden | NotFound | Conflict | ServerError

fun status_code :: "error \<Rightarrow> nat" where
  "status_code BadRequest = 400"
| "status_code Forbidden = 403"
| "status_code NotFound = 404"
| "status_code Conflict = 409"
| "status_code ServerError = 500"

datatype data_file = TasksFile | VisitsFile | HelpersFile | ConfigFile

text \<open>What a handler does besides answering: it writes a file, it emits on a channel.\<close>

datatype effect = Saved data_file jsval | Emitted string jsval

record state =
  tasks :: "obj list"
  visits :: "obj list"
  helpers :: "obj list"
  config :: obj
  effects :: "effect list"

text \<open>The fallbacks of \<open>loadJSON\<close>: what the server starts from when no file exists.\<close>

definition init :: state where
  "init = \<lparr>tasks = [], visits = [], helpers = [],
           config = [(''pin'', JStr ''0000'')], effects = []\<rparr>"

definition arr :: "obj list \<Rightarrow> jsval" where
  "arr xs = JArr (map JObj xs)"

definition saveJSON :: "data_file \<Rightarrow> jsval \<Rightarrow> state \<Rightarrow> state" where
  "saveJSON f d st = st\<lparr>effects := effects st @ [Saved f d]\<rparr>"

definition emit :: "string \<Rightarrow> jsval \<Rightarrow> state \<Rightarrow> state" where
  "emit ch d st = st\<lparr>effects := effects st @ [Emitted ch d]\<rparr>"

definition saveTasks :: "state \<Rightarrow> state" where
  "saveTasks st = saveJSON TasksFile (arr (tasks st)) st"

definition saveVisits :: "state \<Rightarrow> state" where
  "saveVisits st = saveJSON VisitsFile (arr (visits st)) st"

definition saveHelpers :: "state \<Rightarrow> state" where
  "saveHelpers st = saveJSON HelpersFile (arr (helpers st)) st"

definition saveConfig :: "state \<Rightarrow> state" where
  "saveConfig st = saveJSON ConfigFile (JObj (config st)) st"

text \<open>
  \<open>xs.findIndex(p)\<close>, with \<open>None\<close> for -1. \<open>xs.find(p)\<close> is the element at that index;
  it is a reference into the array, so an assignment through it is an update of the
  array at that index.
\<close>

fun findIndex :: "('a \<Rightarrow> bool) \<Rightarrow> 'a list \<Rightarrow> nat option" where
  "findIndex p [] = None"
| "findIndex p (x # xs) = (if p x then Some 0 else map_option Suc (findIndex p xs))"

text \<open>\<open>t => t.id === req.params.id\<close>; a route parameter is a string.\<close>

definition has_id :: "string \<Rightarrow> obj \<Rightarrow> bool" where
  "has_id i t = strict_eq (get_prop t ''id'') (JStr i)"

definition ok_true :: jsval where
  "ok_true = JObj [(''ok'', JBool True)]"

section \<open>The request handlers\<close>

text \<open>
  A handler takes what the request carries (the route parameter, the parsed body), what
  the environment gives it (the identifier \<open>uuidv4()\<close> returns, the string
  \<open>new Date().toISOString()\<close> returns) and the state; it returns the reply, an error
  status or the JSON sent, and the state it leaves.
\<close>

type_synonym reply = "error + jsval"

text \<open>The category given to a task created without one (a package emoji and a Korean word).\<close>

definition default_category :: string where
  "default_category =
     [CHR 0xF0, CHR 0x9F, CHR 0x93, CHR 0xA6, CHR 0x20,
      CHR 0xEA, CHR 0xB8, CHR 0xB0, CHR 0xED, CHR 0x83, CHR 0x80]"

subsection \<open>Tasks\<close>

text \<open>\<open>POST /api/tasks\<close>: the object literal, then the handler.\<close>

definition new_task :: "obj \<Rightarrow> string \<Rightarrow> string \<Rightarrow> obj" where
  "new_task body uuid now =
     [(''id'', JStr uuid),
      (''title'', get_prop body ''title''),
      (''description'', or_else (get_prop body ''description'') (JStr [])),
      (''category'', or_else (get_prop body ''category'') (JStr default_category)),
      (''desiredDate'', or_else (get_prop body ''desiredDate'') (JStr [])),
      (''desiredTime'', or_else (get_prop body ''desiredTime'') (JStr [])),
      (''twin'', or_else (get_prop body ''twin'') (JStr [])),
      (''status'', JStr ''waiting''),
      (''createdAt'', JStr now),
      (''claimedBy'', JNull),
      (''claimedAt'', JNull),
      (''completedAt'', JNull)]"

definition create_task :: "obj \<Rightarrow> string \<Rightarrow> string \<Rightarrow> state \<Rightarrow> reply \<times> state" where
  "create_task body uuid now st =
     (let task = new_task body uuid now;
          st1 = st\<lparr>tasks := task # tasks st\<rparr>;
          st2 = saveTasks st1;
          st3 = emit ''tasks:update'' (arr (tasks st2)) st2
      in (Inr (JObj task), st3))"

text \<open>\<open>PUT /api/tasks/:id\<close>\<close>

definition update_task :: "string \<Rightarrow> obj \<Rightarrow> state \<Rightarrow> reply \<times> state" where
  "update_task tid body st =
     (case findIndex (has_id tid) (tasks st) of
        None \<Rightarrow> (Inl NotFound, st)
      | Some idx \<Rightarrow>
          (let st1 = st\<lparr>tasks := (tasks st)[idx := assign (tasks st ! idx) body]\<rparr>;
               st2 = saveTasks st1;
               st3 = emit ''tasks:update'' (arr (tasks st2)) st2
           in (Inr (JObj (tasks st3 ! idx)), st3)))"

text \<open>\<open>DELETE /api/tasks/:id\<close>\<close>

definition delete_task :: "string \<Rightarrow> state \<Rightarrow> reply \<times> state" where
  "delete_task tid st =
     (let st1 = st\<lparr>tasks := filter (\<lambda>t. \<not> has_id tid t) (tasks st)\<rparr>;
          st2 = saveTasks st1;
          st3 = emit ''tasks:update'' (arr (tasks st2)) st2
      in (Inr ok_true, st3))"

text \<open>\<open>POST /api/tasks/:id/claim\<close>\<close>

definition claim_task :: "string \<Rightarrow> obj \<Rightarrow> string \<Rightarrow> state \<Rightarrow> reply \<times> state" where
  "claim_task tid body now st =
     (let helperName = get_prop body ''helperName'' in
      case findIndex (has_id tid) (tasks st) of
        None \<Rightarrow> (Inl NotFound, st)
      | Some i \<Rightarrow>
          (let task = set_prop ''claimedAt'' (JStr now)
                        (set_prop ''claimedBy'' helperName
                          (set_prop ''status'' (JStr ''reserved'') (tasks st ! i)));
               st1 = st\<lparr>tasks := (tasks st)[i := task]\<rparr>;
               st2 = saveTasks st1;
               st3 = emit ''tasks:update'' (arr (tasks st2)) st2
           in (Inr (JObj task), st3)))"

text \<open>\<open>POST /api/tasks/:id/unclaim\<close>\<close>

definition unclaim_task :: "string \<Rightarrow> state \<Rightarrow> reply \<times> state" where
  "unclaim_task tid st =
     (case findIndex (has_id tid) (tasks st) of
        None \<Rightarrow> (Inl NotFound, st)
      | Some i \<Rightarrow>
          (let task = set_prop ''claimedAt'' JNull
                        (set_prop ''claimedBy'' JNull
                          (set_prop ''status'' (JStr ''waiting'') (tasks st ! i)));
               st1 = st\<lparr>tasks := (tasks st)[i := task]\<rparr>;
               st2 = saveTasks st1;
               st3 = emit ''tasks:update'' (arr (tasks st2)) st2
           in (Inr (JObj task), st3)))"

text \<open>\<open>POST /api/tasks/:id/complete\<close>\<close>

definition complete_task :: "string \<Rightarrow> string \<Rightarrow> state \<Rightarrow> reply \<times> state" where
  "complete_task tid now st =
     (case findIndex (has_id tid) (tasks st) of
        None \<Rightarrow> (Inl NotFound, st)
      | Some i \<Rightarrow>
          (let task = set_prop ''completedAt'' (JStr now)
                        (set_prop ''status'' (JStr ''done'') (tasks st ! i));
               st1 = st\<lparr>tasks := (tasks st)[i := task]\<rparr>;
               st2 = saveTasks st1;
               st3 = emit ''tasks:update'' (arr (tasks st2)) st2
           in (Inr (JObj task), st3)))"

subsection \<open>Visits\<close>

text \<open>\<open>POST /api/visits\<close>: the object literal, then the handler.\<close>

definition new_visit :: "obj \<Rightarrow> string \<Rightarrow> string \<Rightarrow> obj" where
  "new_visit body uuid now =
     [(''id'', JStr uuid),
      (''date'', get_prop body ''date''),
      (''startTime'', get_prop body ''startTime''),
      (''endTime'', get_prop body ''endTime''),
      (''bookedBy'', JNull),
      (''bookedAt'', JNull),
      (''createdAt'', JStr now)]"

definition create_visit :: "obj \<Rightarrow> string \<Rightarrow> string \<Rightarrow> state \<Rightarrow> reply \<times> state" where
  "create_visit body uuid now st =
     (let visit = new_visit body uuid now;
          st1 = st\<lparr>visits := visits st @ [visit]\<rparr>;
          st2 = saveVisits st1;
          st3 = emit ''visits:update'' (arr (visits st2)) st2
      in (Inr (JObj visit), st3))"

text \<open>\<open>POST /api/visits/:id/book\<close>\<close>

definition book_visit :: "string \<Rightarrow> obj \<Rightarrow> string \<Rightarrow> state \<Rightarrow> reply \<times> state" where
  "book_visit vid body now st =
     (let helperName = get_prop body ''helperName'' in
      case findIndex (has_id vid) (visits st) of
        None \<Rightarrow> (Inl NotFound, st)
      | Some i \<Rightarrow>
          if truthy (get_prop (visits st ! i) ''bookedBy'') then (Inl Conflict, st)
          else
            (let visit = set_prop ''bookedAt'' (JStr now)
                           (set_prop ''bookedBy'' helperName (visits st ! i));
                 st1 = st\<lparr>visits := (visits st)[i := visit]\<rparr>;
                 st2 = saveVisits st1;
                 st3 = emit ''visits:update'' (arr (visits st2)) st2
             in (Inr (JObj visit), st3)))"

text \<open>\<open>POST /api/visits/:id/unbook\<close>\<close>

definition unbook_visit :: "string \<Rightarrow> state \<Rightarrow> reply \<times> state" where
  "unbook_visit vid st =
     (case findIndex (has_id vid) (visits st) of
        None \<Rightarrow> (Inl NotFound, st)
      | Some i \<Rightarrow>
          (let visit = set_prop ''bookedAt'' JNull
                         (set_prop ''bookedBy'' JNull (visits st ! i));
               st1 = st\<lparr>visits := (visits st)[i := visit]\<rparr>;
               st2 = saveVisits st1;
               st3 = emit ''visits:update'' (arr (visits st2)) st2
           in (Inr (JObj visit), st3)))"

text \<open>\<open>DELETE /api/visits/:id\<close>\<close>

definition delete_visit :: "string \<Rightarrow> state \<Rightarrow> reply \<times> state" where
  "delete_visit vid st =
     (let st1 = st\<lparr>visits := filter (\<lambda>v. \<not> has_id vid v) (visits st)\<rparr>;
          st2 = saveVisits st1;
          st3 = emit ''visits:update'' (arr (visits st2)) st2
      in (Inr ok_true, st3))"

subsection \<open>Helpers\<close>

text \<open>
  \<open>POST /api/helpers\<close>. A name that is truthy and not a string has no \<open>trim\<close> method:
  the call throws, and the framework answers 500.
\<close>

definition register_helper :: "obj \<Rightarrow> string \<Rightarrow> string \<Rightarrow> state \<Rightarrow> reply \<times> state" where
  "register_helper body uuid now st =
     (let name = get_prop body ''name'' in
      if \<not> truthy name then (Inl BadRequest, st)
      else case name of
        JStr s \<Rightarrow>
          if trim s = [] then (Inl BadRequest, st)
          else
            (case findIndex (\<lambda>h. strict_eq (get_prop h ''name'') (JStr (trim s))) (helpers st) of
               Some i \<Rightarrow> (Inr (JObj (helpers st ! i)), st)
             | None \<Rightarrow>
                 (let helper = [(''id'', JStr uuid), (''name'', JStr (trim s)),
                                (''joinedAt'', JStr now)];
                      st1 = st\<lparr>helpers := helpers st @ [helper]\<rparr>;
                      st2 = saveHelpers st1;
                      st3 = emit ''helpers:update'' (arr (helpers st2)) st2
                  in (Inr (JObj helper), st3)))
      | _ \<Rightarrow> (Inl ServerError, st))"

subsection \<open>The PIN\<close>

text \<open>\<open>POST /api/verify-pin\<close>\<close>

definition verify_pin :: "obj \<Rightarrow> state \<Rightarrow> reply \<times> state" where
  "verify_pin body st =
     (Inr (JObj [(''ok'', JBool (strict_eq (get_prop body ''pin'') (get_prop (config st) ''pin'')))]),
      st)"

text \<open>\<open>POST /api/set-pin\<close>\<close>

definition set_pin :: "obj \<Rightarrow> state \<Rightarrow> reply \<times> state" where
  "set_pin body st =
     (if \<not> strict_eq (get_prop body ''oldPin'') (get_prop (config st) ''pin'')
      then (Inl Forbidden, st)
      else
        (let st1 = st\<lparr>config := set_prop ''pin'' (get_prop body ''newPin'') (config st)\<rparr>;
             st2 = saveConfig st1
         in (Inr ok_true, st2)))"

section \<open>Sequences of requests\<close>

text \<open>
  The server handles one request to completion before the next. A request is recorded
  with everything its handler takes besides the state.
\<close>

datatype request =
    CreateTask obj string string
  | UpdateTask string obj
  | DeleteTask string
  | ClaimTask string obj string
  | UnclaimTask string
  | CompleteTask string string
  | CreateVisit obj string string
  | BookVisit string obj string
  | UnbookVisit string
  | DeleteVisit string
  | RegisterHelper obj string string
  | VerifyPin obj
  | SetPin obj

fun handle :: "request \<Rightarrow> state \<Rightarrow> reply \<times> state" where
  "handle (CreateTask body uuid now) st = create_task body uuid now st"
| "handle (UpdateTask tid body) st = update_task tid body st"
| "handle (DeleteTask tid) st = delete_task tid st"
| "handle (ClaimTask tid body now) st = claim_task tid body now st"
| "handle (UnclaimTask tid) st = unclaim_task tid st"
| "handle (CompleteTask tid now) st = complete_task tid now st"
| "handle (CreateVisit body uuid now) st = create_visit body uuid now st"
| "handle (BookVisit vid body now) st = book_visit vid body now st"
| "handle (UnbookVisit vid) st = unbook_visit vid st"
| "handle (DeleteVisit vid) st = delete_visit vid st"
| "handle (RegisterHelper body uuid now) st = register_helper body uuid now st"
| "handle (VerifyPin body) st = verify_pin body st"
| "handle (SetPin body) st = set_pin body st"

definition run :: "request list \<Rightarrow> state \<Rightarrow> state" where
  "run rs st = fold (\<lambda>r s. snd (handle r s)) rs st"

section \<open>Properties\<close>

text \<open>A field is absent when it holds \<open>null\<close> or \<open>undefined\<close>.\<close>

fun absent :: "jsval \<Rightarrow> bool" where
  "absent JUndefined = True"
| "absent JNull = True"
| "absent _ = False"



text \<open>A state with one visit, booked by a request whose helper name is the empty string.\<close>

definition empty_name_booking :: state where
  "empty_name_booking =
     run [CreateVisit [] ''v1'' ''T0'', BookVisit ''v1'' [(''helperName'', JStr [])] ''T1''] init"

text \<open>
  What a by-id task operation may change: the tasks with the given id, and the record of
  effects. Tasks with another id, the visits, the helpers and the configuration stay.
\<close>

definition only_task_changed :: "string \<Rightarrow> state \<Rightarrow> state \<Rightarrow> bool" where
  "only_task_changed tid st st' \<longleftrightarrow>
     length (tasks st') = length (tasks st) \<and>
     (\<forall>j<length (tasks st). \<not> has_id tid (tasks st ! j) \<longrightarrow> tasks st' ! j = tasks st ! j) \<and>
     visits st' = visits st \<and> helpers st' = helpers st \<and> config st' = config st"

text \<open>
  The invariant of a task, as the data model states it: a waiting task has no claim
  fields, a reserved task has both and no completion time, a done task has a completion
  time.
\<close>

definition task_invariant :: "obj \<Rightarrow> bool" where
  "task_invariant t \<longleftrightarrow>
     (get_prop t ''status'' = JStr ''waiting'' \<longrightarrow>
        absent (get_prop t ''claimedBy'') \<and> absent (get_prop t ''claimedAt'')) \<and>
     (get_prop t ''status'' = JStr ''reserved'' \<longrightarrow>
        \<not> absent (get_prop t ''claimedBy'') \<and> \<not> absent (get_prop t ''claimedAt'') \<and>
        absent (get_prop t ''completedAt'')) \<and>
     (get_prop t ''status'' = JStr ''done'' \<longrightarrow> \<not> absent (get_prop t ''completedAt''))"

text \<open>The same without the demand that a reserved task has no completion time.\<close>

definition status_consistent :: "obj \<Rightarrow> bool" where
  "status_consistent t \<longleftrightarrow>
     (get_prop t ''status'' = JStr ''waiting'' \<longrightarrow>
        absent (get_prop t ''claimedBy'') \<and> absent (get_prop t ''claimedAt'')) \<and>
     (get_prop t ''status'' = JStr ''reserved'' \<longrightarrow>
        \<not> absent (get_prop t ''claimedBy'') \<and> \<not> absent (get_prop t ''claimedAt'')) \<and>
     (get_prop t ''status'' = JStr ''done'' \<longrightarrow> \<not> absent (get_prop t ''completedAt''))"

definition status_fields :: "obj \<Rightarrow> jsval \<times> jsval \<times> jsval \<times> jsval" where
  "status_fields t =
     (get_prop t ''status'', get_prop t ''claimedBy'', get_prop t ''claimedAt'',
      get_prop t ''completedAt'')"

text \<open>
  Requests that go through the status transitions only: a claim names its helper, an
  update does not write the status, claim or completion fields.
\<close>

fun respects_status :: "request \<Rightarrow> bool" where
  "respects_status (ClaimTask tid body now) = (\<not> absent (get_prop body ''helperName''))"
| "respects_status (UpdateTask tid body) =
     (\<forall>k\<in>{''status'', ''claimedBy'', ''claimedAt'', ''completedAt''}. k \<notin> fst ` set body)"
| "respects_status _ = True"

text \<open>The invariant of a visit: it has a booker exactly when it has a booking time.\<close>

definition visit_invariant :: "obj \<Rightarrow> bool" where
  "visit_invariant v \<longleftrightarrow>
     (\<not> absent (get_prop v ''bookedBy'')) = (\<not> absent (get_prop v ''bookedAt''))"

definition booking_fields :: "obj \<Rightarrow> jsval \<times> jsval" where
  "booking_fields v = (get_prop v ''bookedBy'', get_prop v ''bookedAt'')"

text \<open>A booking request that names its helper.\<close>

fun names_helper :: "request \<Rightarrow> bool" where
  "names_helper (BookVisit vid body now) = (\<not> absent (get_prop body ''helperName''))"
| "names_helper _ = True"

text \<open>The half of the visit invariant that needs nothing of the requests.\<close>

definition booker_has_time :: "obj \<Rightarrow> bool" where
  "booker_has_time v \<longleftrightarrow>
     (\<not> absent (get_prop v ''bookedBy'') \<longrightarrow> \<not> absent (get_prop v ''bookedAt''))"

text \<open>
  The identifiers a sequence of requests gives to new tasks, and the requests that do
  not write a task's \<open>id\<close>.
\<close>

definition task_id :: "obj \<Rightarrow> jsval" where
  "task_id t = get_prop t ''id''"

fun created_task_ids :: "request list \<Rightarrow> string list" where
  "created_task_ids [] = []"
| "created_task_ids (CreateTask body uuid now # rs) = uuid # created_task_ids rs"
| "created_task_ids (r # rs) = created_task_ids rs"

fun keeps_id :: "request \<Rightarrow> bool" where
  "keeps_id (UpdateTask tid body) = (''id'' \<notin> fst ` set body)"
| "keeps_id _ = True"

section \<open>Auxiliary facts\<close>

lemmas handler_defs =
  create_task_def update_task_def delete_task_def claim_task_def unclaim_task_def
  complete_task_def create_visit_def new_task_def new_visit_def book_visit_def unbook_visit_def delete_visit_def
  register_helper_def verify_pin_def set_pin_def
  saveTasks_def saveVisits_def saveHelpers_def saveConfig_def saveJSON_def emit_def

lemma map_of_set_prop: "map_of (set_prop k v ob) = (map_of ob)(k \<mapsto> v)"
  by (induction ob) (auto simp: fun_eq_iff)

lemma get_set_prop [simp]:
  "get_prop (set_prop k v ob) k' = (if k' = k then v else get_prop ob k')"
  by (simp add: get_prop_def map_of_set_prop)

lemma findIndex_None: "findIndex p xs = None \<longleftrightarrow> (\<forall>x\<in>set xs. \<not> p x)"
  by (induction xs) auto

lemma findIndex_Some:
  "findIndex p xs = Some i \<longleftrightarrow> i < length xs \<and> p (xs ! i) \<and> (\<forall>j<i. \<not> p (xs ! j))"
proof (induction xs arbitrary: i)
  case Nil
  then show ?case by simp
next
  case (Cons x xs)
  show ?case
  proof (cases "p x")
    case True
    then show ?thesis by (cases i) auto
  next
    case False
    show ?thesis
    proof (cases i)
      case 0
      with False show ?thesis by auto
    next
      case (Suc n)
      have "(\<forall>j<Suc n. \<not> p ((x # xs) ! j)) \<longleftrightarrow> (\<forall>j<n. \<not> p (xs ! j))"
        using False by (auto simp: less_Suc_eq_0_disj)
      with Suc False Cons.IH [of n] show ?thesis by auto
    qed
  qed
qed

lemma findIndex_update:
  "findIndex p xs = Some i \<Longrightarrow> p y \<Longrightarrow> findIndex p (xs[i := y]) = Some i"
  by (auto simp: findIndex_Some nth_list_update)

lemma has_id_set_prop [simp]: "k \<noteq> ''id'' \<Longrightarrow> has_id i (set_prop k v t) = has_id i t"
  by (simp add: has_id_def)


lemma findIndex_append_new:
  "findIndex p xs = None \<Longrightarrow> p y \<Longrightarrow> findIndex p (xs @ [y]) = Some (length xs)"
  by (induction xs) (auto split: if_splits)

lemma findIndex_exists: "(\<exists>x\<in>set xs. p x) \<Longrightarrow> \<exists>i. findIndex p xs = Some i"
  by (cases "findIndex p xs") (auto simp: findIndex_None)

lemma get_assign: "k \<notin> fst ` set source \<Longrightarrow> get_prop (assign target source) k = get_prop target k"
  unfolding assign_def
  by (induction source arbitrary: target) (auto split: prod.splits)

lemma strip_Nil: "strip ws [] = []"
  by (subst strip.simps) (auto split: option.splits simp: find_Some_iff)

lemma trim_Nil: "trim [] = []"
  by (simp add: trim_def strip_Nil)



lemma claim_task_found:
  "findIndex (has_id tid) (tasks st) = Some i \<Longrightarrow>
   claim_task tid body now st =
     (let task = set_prop ''claimedAt'' (JStr now)
                   (set_prop ''claimedBy'' (get_prop body ''helperName'')
                     (set_prop ''status'' (JStr ''reserved'') (tasks st ! i)));
          ts = (tasks st)[i := task]
      in (Inr (JObj task),
          st\<lparr>tasks := ts,
             effects := effects st @ [Saved TasksFile (arr ts), Emitted ''tasks:update'' (arr ts)]\<rparr>))"
  by (simp add: handler_defs Let_def)

lemma unclaim_task_found:
  "findIndex (has_id tid) (tasks st) = Some i \<Longrightarrow>
   unclaim_task tid st =
     (let task = set_prop ''claimedAt'' JNull
                   (set_prop ''claimedBy'' JNull
                     (set_prop ''status'' (JStr ''waiting'') (tasks st ! i)));
          ts = (tasks st)[i := task]
      in (Inr (JObj task),
          st\<lparr>tasks := ts,
             effects := effects st @ [Saved TasksFile (arr ts), Emitted ''tasks:update'' (arr ts)]\<rparr>))"
  by (simp add: handler_defs Let_def)

lemma complete_task_found:
  "findIndex (has_id tid) (tasks st) = Some i \<Longrightarrow>
   complete_task tid now st =
     (let task = set_prop ''completedAt'' (JStr now)
                   (set_prop ''status'' (JStr ''done'') (tasks st ! i));
          ts = (tasks st)[i := task]
      in (Inr (JObj task),
          st\<lparr>tasks := ts,
             effects := effects st @ [Saved TasksFile (arr ts), Emitted ''tasks:update'' (arr ts)]\<rparr>))"
  by (simp add: handler_defs Let_def)

lemma update_task_found:
  "findIndex (has_id tid) (tasks st) = Some i \<Longrightarrow>
   update_task tid body st =
     (let ts = (tasks st)[i := assign (tasks st ! i) body]
      in (Inr (JObj (ts ! i)),
          st\<lparr>tasks := ts,
             effects := effects st @ [Saved TasksFile (arr ts), Emitted ''tasks:update'' (arr ts)]\<rparr>))"
  by (simp add: handler_defs Let_def)

lemma one_task:
  "tasks (run [CreateTask [] ''u1'' ''T1''] init) = [new_task [] ''u1'' ''T1'']"
  by (simp add: run_def handler_defs init_def Let_def)

lemma has_id_new_task: "has_id i (new_task body uuid now) = (i = uuid)"
  by (auto simp: has_id_def new_task_def get_prop_def)

section \<open>Claiming a task\<close>

text \<open>
  Claim C4. If no stored task has the id, \<open>claim\<close> answers NotFound (404) and changes
  nothing. If one has, \<open>claim\<close> takes the first such task, whatever its status, sets its
  status to \<open>reserved\<close>, its \<open>claimedBy\<close> to the helper name of the request and its
  \<open>claimedAt\<close> to the current time, leaves its other fields, stores it in place and
  returns it.
\<close>

theorem claim_task_correct:
  "((\<forall>t\<in>set (tasks st). \<not> has_id tid t) \<longrightarrow>
      claim_task tid body now st = (Inl NotFound, st) \<and> status_code NotFound = 404) \<and>
   ((\<exists>t\<in>set (tasks st). has_id tid t) \<longrightarrow>
      (\<exists>i t'. findIndex (has_id tid) (tasks st) = Some i \<and>
            fst (claim_task tid body now st) = Inr (JObj t') \<and>
            tasks (snd (claim_task tid body now st)) = (tasks st)[i := t'] \<and>
            get_prop t' ''status'' = JStr ''reserved'' \<and>
            get_prop t' ''claimedBy'' = get_prop body ''helperName'' \<and>
            get_prop t' ''claimedAt'' = JStr now \<and>
            (\<forall>k. k \<notin> {''status'', ''claimedBy'', ''claimedAt''} \<longrightarrow>
                 get_prop t' k = get_prop (tasks st ! i) k)))"
proof (intro conjI impI)
  assume "\<forall>t\<in>set (tasks st). \<not> has_id tid t"
  then have "findIndex (has_id tid) (tasks st) = None" by (simp add: findIndex_None)
  then show "claim_task tid body now st = (Inl NotFound, st)"
    by (simp add: claim_task_def)
next
  show "status_code NotFound = 404" by simp
next
  assume "\<exists>t\<in>set (tasks st). has_id tid t"
  then have "\<exists>i. findIndex (has_id tid) (tasks st) = Some i"
    by (rule findIndex_exists)
  then obtain i where i: "findIndex (has_id tid) (tasks st) = Some i" ..
  define t' where "t' = set_prop ''claimedAt'' (JStr now)
                   (set_prop ''claimedBy'' (get_prop body ''helperName'')
                     (set_prop ''status'' (JStr ''reserved'') (tasks st ! i)))"
  have r: "fst (claim_task tid body now st) = Inr (JObj t')"
    and s: "tasks (snd (claim_task tid body now st)) = (tasks st)[i := t']"
    by (simp_all add: claim_task_found [OF i] Let_def t'_def)
  have g: "get_prop t' ''status'' = JStr ''reserved''"
    "get_prop t' ''claimedBy'' = get_prop body ''helperName''"
    "get_prop t' ''claimedAt'' = JStr now"
    by (simp_all add: t'_def)
  have f: "\<forall>k. k \<notin> {''status'', ''claimedBy'', ''claimedAt''} \<longrightarrow>
                 get_prop t' k = get_prop (tasks st ! i) k"
    by (simp add: t'_def)
  show "\<exists>i t'. findIndex (has_id tid) (tasks st) = Some i \<and>
            fst (claim_task tid body now st) = Inr (JObj t') \<and>
            tasks (snd (claim_task tid body now st)) = (tasks st)[i := t'] \<and>
            get_prop t' ''status'' = JStr ''reserved'' \<and>
            get_prop t' ''claimedBy'' = get_prop body ''helperName'' \<and>
            get_prop t' ''claimedAt'' = JStr now \<and>
            (\<forall>k. k \<notin> {''status'', ''claimedBy'', ''claimedAt''} \<longrightarrow>
                 get_prop t' k = get_prop (tasks st ! i) k)"
    by (rule exI [of _ i], rule exI [of _ t'], intro conjI) (rule i r s g f)+
qed

theorem claim_task_correct_witness:
  "\<not> (\<exists>t\<in>set (tasks init). has_id ''u1'' t) \<and>
   claim_task ''u1'' [(''helperName'', JStr ''Sam'')] ''T2'' init = (Inl NotFound, init) \<and>
   (\<exists>t\<in>set (tasks (run [CreateTask [] ''u1'' ''T1''] init)). has_id ''u1'' t) \<and>
   (\<exists>i t'. findIndex (has_id ''u1'') (tasks (run [CreateTask [] ''u1'' ''T1''] init)) = Some i \<and>
      fst (claim_task ''u1'' [(''helperName'', JStr ''Sam'')] ''T2''
             (run [CreateTask [] ''u1'' ''T1''] init)) = Inr (JObj t') \<and>
      get_prop t' ''status'' = JStr ''reserved'' \<and>
      get_prop t' ''claimedBy'' = get_prop [(''helperName'', JStr ''Sam'')] ''helperName'' \<and>
      get_prop t' ''claimedAt'' = JStr ''T2'')"
proof -
  let ?b = "[(''helperName'', JStr ''Sam'')]"
  let ?st = "run [CreateTask [] ''u1'' ''T1''] init"
  have h1: "\<forall>t\<in>set (tasks init). \<not> has_id ''u1'' t" by (simp add: init_def)
  have h2: "\<exists>t\<in>set (tasks ?st). has_id ''u1'' t"
    by (simp add: one_task has_id_new_task)
  from claim_task_correct [of init "''u1''" ?b "''T2''"] h1
  have c1: "claim_task ''u1'' ?b ''T2'' init = (Inl NotFound, init)" by blast
  from claim_task_correct [of ?st "''u1''" ?b "''T2''"] h2
  have c2: "\<exists>i t'. findIndex (has_id ''u1'') (tasks ?st) = Some i \<and>
      fst (claim_task ''u1'' ?b ''T2'' ?st) = Inr (JObj t') \<and>
      get_prop t' ''status'' = JStr ''reserved'' \<and>
      get_prop t' ''claimedBy'' = get_prop ?b ''helperName'' \<and>
      get_prop t' ''claimedAt'' = JStr ''T2''" by blast
  from h1 h2 c1 c2 show ?thesis by blast
qed

text \<open>
  Claim C5. For a stored task, \<open>claim\<close> on its id followed by \<open>unclaim\<close> on the same id
  both succeed, and the task \<open>unclaim\<close> returns and stores has status \<open>waiting\<close> and
  \<open>claimedBy\<close> and \<open>claimedAt\<close> \<open>null\<close>, whatever the status before the claim and
  whatever the helper name.
\<close>

theorem claim_then_unclaim:
  "\<exists>t\<in>set (tasks st). has_id tid t \<Longrightarrow>
   \<exists>i t' t''.
     findIndex (has_id tid) (tasks st) = Some i \<and>
     fst (claim_task tid body now st) = Inr (JObj t') \<and>
     fst (unclaim_task tid (snd (claim_task tid body now st))) = Inr (JObj t'') \<and>
     tasks (snd (unclaim_task tid (snd (claim_task tid body now st)))) = (tasks st)[i := t''] \<and>
     get_prop t'' ''status'' = JStr ''waiting'' \<and>
     get_prop t'' ''claimedBy'' = JNull \<and>
     get_prop t'' ''claimedAt'' = JNull"
proof -
  assume "\<exists>t\<in>set (tasks st). has_id tid t"
  then have "\<exists>i. findIndex (has_id tid) (tasks st) = Some i"
    by (rule findIndex_exists)
  then obtain i where i: "findIndex (has_id tid) (tasks st) = Some i" ..
  then have p: "has_id tid (tasks st ! i)" and l: "i < length (tasks st)"
    by (simp_all add: findIndex_Some)
  define t' where "t' = set_prop ''claimedAt'' (JStr now)
              (set_prop ''claimedBy'' (get_prop body ''helperName'')
                (set_prop ''status'' (JStr ''reserved'') (tasks st ! i)))"
  define st1 where "st1 = snd (claim_task tid body now st)"
  note st1 = st1_def [symmetric]
  define t'' where "t'' = set_prop ''claimedAt'' JNull
                   (set_prop ''claimedBy'' JNull
                     (set_prop ''status'' (JStr ''waiting'') t'))"
  have r1: "fst (claim_task tid body now st) = Inr (JObj t')"
    and s1: "tasks st1 = (tasks st)[i := t']"
    by (simp_all add: claim_task_found [OF i] Let_def t'_def st1_def)
  have r1: "fst (claim_task tid body now st) = Inr (JObj t')" by (rule r1)
  have "has_id tid t'" using p by (simp add: t'_def)
  with i have i1: "findIndex (has_id tid) (tasks st1) = Some i"
    unfolding s1 by (rule findIndex_update)
  have r2: "fst (unclaim_task tid st1) = Inr (JObj t'')"
    and s2: "tasks (snd (unclaim_task tid st1)) = (tasks st)[i := t'']"
    using l by (simp_all add: unclaim_task_found [OF i1] Let_def t''_def s1)
  have g: "get_prop t'' ''status'' = JStr ''waiting''"
    "get_prop t'' ''claimedBy'' = JNull" "get_prop t'' ''claimedAt'' = JNull"
    by (simp_all add: t''_def)
  show ?thesis
    unfolding st1_def [symmetric]
    by (rule exI [of _ i], rule exI [of _ t'], rule exI [of _ t''], intro conjI)
       (rule i r1 r2 s2 g)+
qed

theorem claim_then_unclaim_witness:
  "(\<exists>t\<in>set (tasks (run [CreateTask [] ''u1'' ''T1''] init)). has_id ''u1'' t) \<and>
   (\<exists>t''.
     fst (unclaim_task ''u1'' (snd (claim_task ''u1'' [(''helperName'', JStr ''Sam'')] ''T2''
            (run [CreateTask [] ''u1'' ''T1''] init)))) = Inr (JObj t'') \<and>
     get_prop t'' ''status'' = JStr ''waiting'' \<and>
     get_prop t'' ''claimedBy'' = JNull \<and>
     get_prop t'' ''claimedAt'' = JNull)"
proof -
  let ?st = "run [CreateTask [] ''u1'' ''T1''] init"
  have h: "\<exists>t\<in>set (tasks ?st). has_id ''u1'' t"
    by (simp add: one_task has_id_new_task)
  from claim_then_unclaim [OF h, of "[(''helperName'', JStr ''Sam'')]" "''T2''"] h
  show ?thesis by blast
qed

section \<open>Creating tasks and visits\<close>

text \<open>
  Claim C9. Creation never fails. For every request body, \<open>create-task\<close> and
  \<open>create-visit\<close> succeed and return the new record, which carries the generated
  identifier and the creation time and takes the body's fields as they are (an absent
  title, date, start or end time included); a task starts \<open>waiting\<close> with \<open>null\<close> claim
  and completion fields, a visit starts with \<open>null\<close> \<open>bookedBy\<close> and \<open>bookedAt\<close>; the
  task is put in front of the stored tasks, the visit after the stored visits, and the
  collection is saved and broadcast.
\<close>

theorem create_never_fails:
  "create_task body uuid now st =
     (Inr (JObj (new_task body uuid now)),
      st\<lparr>tasks := new_task body uuid now # tasks st,
         effects := effects st @
           [Saved TasksFile (arr (new_task body uuid now # tasks st)),
            Emitted ''tasks:update'' (arr (new_task body uuid now # tasks st))]\<rparr>) \<and>
   get_prop (new_task body uuid now) ''id'' = JStr uuid \<and>
   get_prop (new_task body uuid now) ''createdAt'' = JStr now \<and>
   get_prop (new_task body uuid now) ''title'' = get_prop body ''title'' \<and>
   get_prop (new_task body uuid now) ''status'' = JStr ''waiting'' \<and>
   get_prop (new_task body uuid now) ''claimedBy'' = JNull \<and>
   get_prop (new_task body uuid now) ''claimedAt'' = JNull \<and>
   get_prop (new_task body uuid now) ''completedAt'' = JNull \<and>
   create_visit body uuid now st =
     (Inr (JObj (new_visit body uuid now)),
      st\<lparr>visits := visits st @ [new_visit body uuid now],
         effects := effects st @
           [Saved VisitsFile (arr (visits st @ [new_visit body uuid now])),
            Emitted ''visits:update'' (arr (visits st @ [new_visit body uuid now]))]\<rparr>) \<and>
   get_prop (new_visit body uuid now) ''id'' = JStr uuid \<and>
   get_prop (new_visit body uuid now) ''createdAt'' = JStr now \<and>
   get_prop (new_visit body uuid now) ''date'' = get_prop body ''date'' \<and>
   get_prop (new_visit body uuid now) ''startTime'' = get_prop body ''startTime'' \<and>
   get_prop (new_visit body uuid now) ''endTime'' = get_prop body ''endTime'' \<and>
   get_prop (new_visit body uuid now) ''bookedBy'' = JNull \<and>
   get_prop (new_visit body uuid now) ''bookedAt'' = JNull"
proof -
  have t: "create_task body uuid now st =
     (Inr (JObj (new_task body uuid now)),
      st\<lparr>tasks := new_task body uuid now # tasks st,
         effects := effects st @
           [Saved TasksFile (arr (new_task body uuid now # tasks st)),
            Emitted ''tasks:update'' (arr (new_task body uuid now # tasks st))]\<rparr>)"
    by (simp add: create_task_def saveTasks_def saveJSON_def emit_def Let_def)
  have v: "create_visit body uuid now st =
     (Inr (JObj (new_visit body uuid now)),
      st\<lparr>visits := visits st @ [new_visit body uuid now],
         effects := effects st @
           [Saved VisitsFile (arr (visits st @ [new_visit body uuid now])),
            Emitted ''visits:update'' (arr (visits st @ [new_visit body uuid now]))]\<rparr>)"
    by (simp add: create_visit_def saveVisits_def saveJSON_def emit_def Let_def)
  have tf: "get_prop (new_task body uuid now) ''id'' = JStr uuid"
    "get_prop (new_task body uuid now) ''createdAt'' = JStr now"
    "get_prop (new_task body uuid now) ''title'' = get_prop body ''title''"
    "get_prop (new_task body uuid now) ''status'' = JStr ''waiting''"
    "get_prop (new_task body uuid now) ''claimedBy'' = JNull"
    "get_prop (new_task body uuid now) ''claimedAt'' = JNull"
    "get_prop (new_task body uuid now) ''completedAt'' = JNull"
    by (simp_all add: new_task_def get_prop_def)
  have vf: "get_prop (new_visit body uuid now) ''id'' = JStr uuid"
    "get_prop (new_visit body uuid now) ''createdAt'' = JStr now"
    "get_prop (new_visit body uuid now) ''date'' = get_prop body ''date''"
    "get_prop (new_visit body uuid now) ''startTime'' = get_prop body ''startTime''"
    "get_prop (new_visit body uuid now) ''endTime'' = get_prop body ''endTime''"
    "get_prop (new_visit body uuid now) ''bookedBy'' = JNull"
    "get_prop (new_visit body uuid now) ''bookedAt'' = JNull"
    by (simp_all add: new_visit_def get_prop_def)
  from t v tf vf show ?thesis by blast
qed

section \<open>The PIN\<close>






section \<open>Registering a helper\<close>

lemma strict_eq_JStr [simp]: "strict_eq v (JStr s) = (v = JStr s)"
  by (cases v) auto

lemma register_helper_existing:
  assumes "get_prop body ''name'' = JStr s" and "trim s \<noteq> []"
    and "findIndex (\<lambda>h. strict_eq (get_prop h ''name'') (JStr (trim s))) (helpers st) = Some i"
  shows "register_helper body uuid now st = (Inr (JObj (helpers st ! i)), st)"
proof -
  from assms(2) have "s \<noteq> []" using trim_Nil by auto
  with assms show ?thesis by (simp add: register_helper_def)
qed

lemma register_helper_new:
  assumes "get_prop body ''name'' = JStr s" and "trim s \<noteq> []"
    and "findIndex (\<lambda>h. strict_eq (get_prop h ''name'') (JStr (trim s))) (helpers st) = None"
  shows "register_helper body uuid now st =
    (let helper = [(''id'', JStr uuid), (''name'', JStr (trim s)), (''joinedAt'', JStr now)];
         hs = helpers st @ [helper]
     in (Inr (JObj helper),
         st\<lparr>helpers := hs,
            effects := effects st @
              [Saved HelpersFile (arr hs), Emitted ''helpers:update'' (arr hs)]\<rparr>))"
proof -
  from assms(2) have "s \<noteq> []" using trim_Nil by auto
  with assms show ?thesis
    by (simp add: register_helper_def saveHelpers_def saveJSON_def emit_def Let_def)
qed

text \<open>
  Claim C6. Take two registrations whose names are strings with the same trimmed form,
  not blank (the same name twice is the case in point). Both return the same record, so
  the same identifier. That record is stored in the helper collection and carries the
  trimmed name; when no helper had the name it is the new record, with the generated
  identifier, appended to the collection, saved and broadcast; when one had, it is that
  stored record and the state is unchanged. The second registration leaves the whole
  state as the first left it: the helper collection has the same length and the same
  elements, and nothing is saved or broadcast.
\<close>

theorem register_twice:
  "get_prop body1 ''name'' = JStr s1 \<Longrightarrow> get_prop body2 ''name'' = JStr s2 \<Longrightarrow>
   trim s1 = trim s2 \<Longrightarrow> trim s1 \<noteq> [] \<Longrightarrow>
   (\<exists>h1 h2.
      fst (register_helper body1 u1 n1 st) = Inr (JObj h1) \<and>
      fst (register_helper body2 u2 n2 (snd (register_helper body1 u1 n1 st))) = Inr (JObj h2) \<and>
      h2 = h1 \<and>
      get_prop h2 ''id'' = get_prop h1 ''id'' \<and>
      get_prop h1 ''name'' = JStr (trim s1) \<and>
      h1 \<in> set (helpers (snd (register_helper body1 u1 n1 st))) \<and>
      (findIndex (\<lambda>h. strict_eq (get_prop h ''name'') (JStr (trim s1))) (helpers st) = None \<longrightarrow>
         h1 = [(''id'', JStr u1), (''name'', JStr (trim s1)), (''joinedAt'', JStr n1)] \<and>
         get_prop h1 ''id'' = JStr u1 \<and>
         helpers (snd (register_helper body1 u1 n1 st)) = helpers st @ [h1] \<and>
         effects (snd (register_helper body1 u1 n1 st)) =
           effects st @ [Saved HelpersFile (arr (helpers st @ [h1])),
                         Emitted ''helpers:update'' (arr (helpers st @ [h1]))]) \<and>
      (\<forall>i. findIndex (\<lambda>h. strict_eq (get_prop h ''name'') (JStr (trim s1))) (helpers st) = Some i
         \<longrightarrow> h1 = helpers st ! i \<and> snd (register_helper body1 u1 n1 st) = st)) \<and>
   snd (register_helper body2 u2 n2 (snd (register_helper body1 u1 n1 st))) =
     snd (register_helper body1 u1 n1 st) \<and>
   helpers (snd (register_helper body2 u2 n2 (snd (register_helper body1 u1 n1 st)))) =
     helpers (snd (register_helper body1 u1 n1 st)) \<and>
   length (helpers (snd (register_helper body2 u2 n2 (snd (register_helper body1 u1 n1 st))))) =
     length (helpers (snd (register_helper body1 u1 n1 st))) \<and>
   effects (snd (register_helper body2 u2 n2 (snd (register_helper body1 u1 n1 st)))) =
     effects (snd (register_helper body1 u1 n1 st))"
proof -
  assume b1: "get_prop body1 ''name'' = JStr s1" and b2: "get_prop body2 ''name'' = JStr s2"
    and e: "trim s1 = trim s2" and t1: "trim s1 \<noteq> []"
  from e t1 have t2: "trim s2 \<noteq> []" by simp
  let ?p = "\<lambda>h. strict_eq (get_prop h ''name'') (JStr (trim s1))"
  let ?new = "[(''id'', JStr u1), (''name'', JStr (trim s1)), (''joinedAt'', JStr n1)]"
  define st1 where "st1 = snd (register_helper body1 u1 n1 st)"
  have first: "\<exists>h i. fst (register_helper body1 u1 n1 st) = Inr (JObj h) \<and>
      findIndex ?p (helpers st1) = Some i \<and> helpers st1 ! i = h \<and>
      (findIndex ?p (helpers st) = None \<longrightarrow>
         h = ?new \<and> helpers st1 = helpers st @ [h] \<and>
         effects st1 = effects st @ [Saved HelpersFile (arr (helpers st @ [h])),
                                     Emitted ''helpers:update'' (arr (helpers st @ [h]))]) \<and>
      (\<forall>j. findIndex ?p (helpers st) = Some j \<longrightarrow> h = helpers st ! j \<and> st1 = st)"
  proof (cases "findIndex ?p (helpers st)")
    case (Some i)
    then show ?thesis
      using register_helper_existing [OF b1 t1 Some] by (simp add: st1_def)
  next
    case None
    have ph: "?p ?new" by (simp add: get_prop_def)
    have "findIndex ?p (helpers st @ [?new]) = Some (length (helpers st))"
      by (rule findIndex_append_new [of ?p "helpers st" ?new, OF None ph])
    then show ?thesis
      using register_helper_new [OF b1 t1 None] None by (simp add: Let_def st1_def)
  qed
  then obtain h i where r1: "fst (register_helper body1 u1 n1 st) = Inr (JObj h)"
    and i: "findIndex ?p (helpers st1) = Some i" and h: "helpers st1 ! i = h"
    and new: "findIndex ?p (helpers st) = None \<longrightarrow>
         h = ?new \<and> helpers st1 = helpers st @ [h] \<and>
         effects st1 = effects st @ [Saved HelpersFile (arr (helpers st @ [h])),
                                     Emitted ''helpers:update'' (arr (helpers st @ [h]))]"
    and old: "\<forall>j. findIndex ?p (helpers st) = Some j \<longrightarrow> h = helpers st ! j \<and> st1 = st"
    by (elim exE conjE)
  from i have i2: "findIndex (\<lambda>h. strict_eq (get_prop h ''name'') (JStr (trim s2))) (helpers st1)
      = Some i"
    by (simp only: e)
  from register_helper_existing [OF b2 t2 i2] h
  have r2: "register_helper body2 u2 n2 st1 = (Inr (JObj h), st1)" by simp
  from i h have ph: "?p h" and mem: "h \<in> set (helpers st1)"
    by (auto simp: findIndex_Some)
  from ph have n: "get_prop h ''name'' = JStr (trim s1)" by simp
  have new': "findIndex ?p (helpers st) = None \<longrightarrow>
         h = ?new \<and> get_prop h ''id'' = JStr u1 \<and> helpers st1 = helpers st @ [h] \<and>
         effects st1 = effects st @ [Saved HelpersFile (arr (helpers st @ [h])),
                                     Emitted ''helpers:update'' (arr (helpers st @ [h]))]"
  proof
    assume "findIndex ?p (helpers st) = None"
    with new have c: "h = ?new" "helpers st1 = helpers st @ [h]"
      "effects st1 = effects st @ [Saved HelpersFile (arr (helpers st @ [h])),
                                     Emitted ''helpers:update'' (arr (helpers st @ [h]))]"
      by simp_all
    from c(1) have "get_prop h ''id'' = JStr u1" by (simp add: get_prop_def)
    with c show "h = ?new \<and> get_prop h ''id'' = JStr u1 \<and> helpers st1 = helpers st @ [h] \<and>
         effects st1 = effects st @ [Saved HelpersFile (arr (helpers st @ [h])),
                                     Emitted ''helpers:update'' (arr (helpers st @ [h]))]"
      by (intro conjI)
  qed
  have r2f: "fst (register_helper body2 u2 n2 st1) = Inr (JObj h)"
    and s2: "snd (register_helper body2 u2 n2 st1) = st1"
    by (simp_all add: r2)
  have ex: "\<exists>h1 h2.
      fst (register_helper body1 u1 n1 st) = Inr (JObj h1) \<and>
      fst (register_helper body2 u2 n2 st1) = Inr (JObj h2) \<and>
      h2 = h1 \<and>
      get_prop h2 ''id'' = get_prop h1 ''id'' \<and>
      get_prop h1 ''name'' = JStr (trim s1) \<and>
      h1 \<in> set (helpers st1) \<and>
      (findIndex ?p (helpers st) = None \<longrightarrow>
         h1 = ?new \<and> get_prop h1 ''id'' = JStr u1 \<and> helpers st1 = helpers st @ [h1] \<and>
         effects st1 = effects st @ [Saved HelpersFile (arr (helpers st @ [h1])),
                                     Emitted ''helpers:update'' (arr (helpers st @ [h1]))]) \<and>
      (\<forall>i. findIndex ?p (helpers st) = Some i \<longrightarrow> h1 = helpers st ! i \<and> st1 = st)"
    by (rule exI [of _ h], rule exI [of _ h], intro conjI)
       (rule r1 r2f refl n mem new' old)+
  from ex s2 show ?thesis unfolding st1_def by simp
qed

theorem register_twice_witness:
  "get_prop [(''name'', JStr '' Kim '')] ''name'' = JStr '' Kim '' \<and>
   get_prop [(''name'', JStr ''Kim'')] ''name'' = JStr ''Kim'' \<and>
   trim '' Kim '' = trim ''Kim'' \<and>
   trim '' Kim '' \<noteq> [] \<and>
   findIndex (\<lambda>h. strict_eq (get_prop h ''name'') (JStr (trim '' Kim ''))) (helpers init) = None \<and>
   fst (register_helper [(''name'', JStr '' Kim '')] ''h1'' ''T1'' init) =
     Inr (JObj [(''id'', JStr ''h1''), (''name'', JStr (trim '' Kim '')), (''joinedAt'', JStr ''T1'')]) \<and>
   fst (register_helper [(''name'', JStr ''Kim'')] ''h2'' ''T2''
         (snd (register_helper [(''name'', JStr '' Kim '')] ''h1'' ''T1'' init))) =
     Inr (JObj [(''id'', JStr ''h1''), (''name'', JStr (trim '' Kim '')), (''joinedAt'', JStr ''T1'')]) \<and>
   helpers (snd (register_helper [(''name'', JStr '' Kim '')] ''h1'' ''T1'' init)) =
     helpers init @
       [[(''id'', JStr ''h1''), (''name'', JStr (trim '' Kim '')), (''joinedAt'', JStr ''T1'')]] \<and>
   snd (register_helper [(''name'', JStr ''Kim'')] ''h2'' ''T2''
         (snd (register_helper [(''name'', JStr '' Kim '')] ''h1'' ''T1'' init))) =
     snd (register_helper [(''name'', JStr '' Kim '')] ''h1'' ''T1'' init)"
proof -
  let ?b1 = "[(''name'', JStr '' Kim '')]"
  let ?b2 = "[(''name'', JStr ''Kim'')]"
  let ?h = "[(''id'', JStr ''h1''), (''name'', JStr (trim '' Kim '')), (''joinedAt'', JStr ''T1'')]"
  let ?st1 = "snd (register_helper ?b1 ''h1'' ''T1'' init)"
  have b1: "get_prop ?b1 ''name'' = JStr '' Kim ''"
    and b2: "get_prop ?b2 ''name'' = JStr ''Kim''"
    by (simp_all add: get_prop_def)
  have k1: "trim '' Kim '' = ''Kim''" and k2: "trim ''Kim'' = ''Kim''"
    by (simp_all add: trim_def white_space_def strip.simps)
  have e: "trim '' Kim '' = trim ''Kim''" by (simp only: k1 k2)
  have t: "trim '' Kim '' \<noteq> []" by (simp add: k1)
  have f: "findIndex (\<lambda>h. strict_eq (get_prop h ''name'') (JStr (trim '' Kim ''))) (helpers init)
      = None"
    by (simp add: init_def)
  note main = register_twice [OF b1 b2 e t, of "''h1''" "''T1''" init "''h2''" "''T2''"]
  from main [THEN conjunct1] obtain h1 h2 where
    r1: "fst (register_helper ?b1 ''h1'' ''T1'' init) = Inr (JObj h1)"
    and r2: "fst (register_helper ?b2 ''h2'' ''T2'' ?st1) = Inr (JObj h2)"
    and same: "h2 = h1"
    and new: "findIndex (\<lambda>h. strict_eq (get_prop h ''name'') (JStr (trim '' Kim ''))) (helpers init)
        = None \<longrightarrow>
      h1 = ?h \<and> get_prop h1 ''id'' = JStr ''h1'' \<and> helpers ?st1 = helpers init @ [h1] \<and>
      effects ?st1 = effects init @ [Saved HelpersFile (arr (helpers init @ [h1])),
                                     Emitted ''helpers:update'' (arr (helpers init @ [h1]))]"
    by (elim exE conjE)
  from new f have h1: "h1 = ?h" and hs: "helpers ?st1 = helpers init @ [h1]"
    by simp_all
  have c1: "fst (register_helper ?b1 ''h1'' ''T1'' init) = Inr (JObj ?h)"
    using r1 h1 by simp
  have c2: "fst (register_helper ?b2 ''h2'' ''T2'' ?st1) = Inr (JObj ?h)"
    using r2 same h1 by simp
  have c3: "helpers ?st1 = helpers init @ [?h]"
    using hs h1 by simp
  note c4 = main [THEN conjunct2, THEN conjunct1]
  show ?thesis by (intro conjI) (rule b1 b2 e t f c1 c2 c3 c4)+
qed

section \<open>Booking a visit\<close>

lemma book_visit_found:
  "findIndex (has_id vid) (visits st) = Some i \<Longrightarrow>
   book_visit vid body now st =
     (if truthy (get_prop (visits st ! i) ''bookedBy'') then (Inl Conflict, st)
      else
        (let visit = set_prop ''bookedAt'' (JStr now)
                       (set_prop ''bookedBy'' (get_prop body ''helperName'') (visits st ! i));
             vs = (visits st)[i := visit]
         in (Inr (JObj visit),
             st\<lparr>visits := vs,
                effects := effects st @
                  [Saved VisitsFile (arr vs), Emitted ''visits:update'' (arr vs)]\<rparr>)))"
  by (simp add: book_visit_def saveVisits_def saveJSON_def emit_def Let_def)

lemma unbook_visit_found:
  "findIndex (has_id vid) (visits st) = Some i \<Longrightarrow>
   unbook_visit vid st =
     (let visit = set_prop ''bookedAt'' JNull (set_prop ''bookedBy'' JNull (visits st ! i));
          vs = (visits st)[i := visit]
      in (Inr (JObj visit),
          st\<lparr>visits := vs,
             effects := effects st @
               [Saved VisitsFile (arr vs), Emitted ''visits:update'' (arr vs)]\<rparr>))"
  by (simp add: unbook_visit_def saveVisits_def saveJSON_def emit_def Let_def)

lemma absent_not_truthy: "absent v \<Longrightarrow> \<not> truthy v"
  by (cases v) auto

lemma empty_name_booking_visits:
  "visits empty_name_booking =
     [[(''id'', JStr ''v1''), (''date'', JUndefined), (''startTime'', JUndefined),
       (''endTime'', JUndefined), (''bookedBy'', JStr []), (''bookedAt'', JStr ''T1''),
       (''createdAt'', JStr ''T0'')]]"
  by (simp add: empty_name_booking_def run_def create_visit_def new_visit_def book_visit_def
      saveVisits_def saveJSON_def emit_def init_def has_id_def get_prop_def Let_def)

text \<open>
  Claim C3, as stated, fails for a visit booked with a falsy helper name, such as the
  empty string: the handler tests \<open>bookedBy\<close> for truthiness, so the visit, though
  booked, can be booked again, and the second booking replaces the first.
\<close>

theorem book_visit_counterexample:
  "findIndex (has_id ''v1'') (visits empty_name_booking) = Some 0 \<and>
   get_prop (visits empty_name_booking ! 0) ''bookedBy'' = JStr [] \<and>
   get_prop (visits empty_name_booking ! 0) ''bookedAt'' = JStr ''T1'' \<and>
   fst (book_visit ''v1'' [(''helperName'', JStr ''Lee'')] ''T2'' empty_name_booking)
     \<noteq> Inl Conflict \<and>
   get_prop (visits (snd (book_visit ''v1'' [(''helperName'', JStr ''Lee'')] ''T2''
      empty_name_booking)) ! 0) ''bookedBy'' = JStr ''Lee'' \<and>
   get_prop (visits (snd (book_visit ''v1'' [(''helperName'', JStr ''Lee'')] ''T2''
      empty_name_booking)) ! 0) ''bookedAt'' = JStr ''T2''"
proof -
  have i: "findIndex (has_id ''v1'') (visits empty_name_booking) = Some 0"
    by (simp add: empty_name_booking_visits has_id_def get_prop_def)
  have b: "get_prop (visits empty_name_booking ! 0) ''bookedBy'' = JStr []"
    and a: "get_prop (visits empty_name_booking ! 0) ''bookedAt'' = JStr ''T1''"
    by (simp_all add: empty_name_booking_visits get_prop_def)
  have h: "get_prop [(''helperName'', JStr ''Lee'')] ''helperName'' = JStr ''Lee''"
    by (simp add: get_prop_def)
  have l: "0 < length (visits empty_name_booking)"
    by (simp add: empty_name_booking_visits)
  have r: "fst (book_visit ''v1'' [(''helperName'', JStr ''Lee'')] ''T2'' empty_name_booking)
     \<noteq> Inl Conflict"
    by (simp add: book_visit_found [OF i] b Let_def)
  have s: "get_prop (visits (snd (book_visit ''v1'' [(''helperName'', JStr ''Lee'')] ''T2''
      empty_name_booking)) ! 0) ''bookedBy'' = JStr ''Lee''"
    "get_prop (visits (snd (book_visit ''v1'' [(''helperName'', JStr ''Lee'')] ''T2''
      empty_name_booking)) ! 0) ''bookedAt'' = JStr ''T2''"
    using l by (simp_all add: book_visit_found [OF i] b h Let_def)
  show ?thesis by (intro conjI) (rule i b a r s)+
qed

text \<open>
  Claim C3, amended. For the first stored visit with the given id: if its \<open>bookedBy\<close> is
  truthy (any non-empty helper name is), \<open>book\<close> with any helper name answers Conflict
  (409) and leaves the whole state, so the visit's \<open>bookedBy\<close> and \<open>bookedAt\<close>, as it
  was; if its \<open>bookedBy\<close> is absent, \<open>book\<close> succeeds, sets \<open>bookedBy\<close> to the given
  helper name and \<open>bookedAt\<close> to the current time, and leaves the visit's other fields.
\<close>

theorem book_visit_correct:
  "findIndex (has_id vid) (visits st) = Some i \<Longrightarrow>
   (truthy (get_prop (visits st ! i) ''bookedBy'') \<longrightarrow>
      book_visit vid body now st = (Inl Conflict, st) \<and> status_code Conflict = 409) \<and>
   (absent (get_prop (visits st ! i) ''bookedBy'') \<longrightarrow>
      (\<exists>v'. fst (book_visit vid body now st) = Inr (JObj v') \<and>
            visits (snd (book_visit vid body now st)) = (visits st)[i := v'] \<and>
            get_prop v' ''bookedBy'' = get_prop body ''helperName'' \<and>
            get_prop v' ''bookedAt'' = JStr now \<and>
            (\<forall>k. k \<notin> {''bookedBy'', ''bookedAt''} \<longrightarrow>
                 get_prop v' k = get_prop (visits st ! i) k)))"
proof (intro conjI impI)
  assume i: "findIndex (has_id vid) (visits st) = Some i"
  {
    assume "truthy (get_prop (visits st ! i) ''bookedBy'')"
    then show "book_visit vid body now st = (Inl Conflict, st)"
      by (simp add: book_visit_found [OF i])
  next
    show "status_code Conflict = 409" by simp
  next
    assume "absent (get_prop (visits st ! i) ''bookedBy'')"
    then have n: "\<not> truthy (get_prop (visits st ! i) ''bookedBy'')"
      by (rule absent_not_truthy)
    define v' where "v' = set_prop ''bookedAt'' (JStr now)
                       (set_prop ''bookedBy'' (get_prop body ''helperName'') (visits st ! i))"
    have r: "fst (book_visit vid body now st) = Inr (JObj v')"
      and s: "visits (snd (book_visit vid body now st)) = (visits st)[i := v']"
      by (simp_all add: book_visit_found [OF i] n Let_def v'_def)
    have g: "get_prop v' ''bookedBy'' = get_prop body ''helperName''"
      "get_prop v' ''bookedAt'' = JStr now"
      by (simp_all add: v'_def)
    have f: "\<forall>k. k \<notin> {''bookedBy'', ''bookedAt''} \<longrightarrow>
                 get_prop v' k = get_prop (visits st ! i) k"
      by (simp add: v'_def)
    show "\<exists>v'. fst (book_visit vid body now st) = Inr (JObj v') \<and>
            visits (snd (book_visit vid body now st)) = (visits st)[i := v'] \<and>
            get_prop v' ''bookedBy'' = get_prop body ''helperName'' \<and>
            get_prop v' ''bookedAt'' = JStr now \<and>
            (\<forall>k. k \<notin> {''bookedBy'', ''bookedAt''} \<longrightarrow>
                 get_prop v' k = get_prop (visits st ! i) k)"
      by (rule exI [of _ v'], intro conjI) (rule r s g f)+
  }
qed

lemma one_visit:
  "visits (run [CreateVisit [] ''v1'' ''T0''] init) = [new_visit [] ''v1'' ''T0'']"
  by (simp add: run_def create_visit_def saveVisits_def saveJSON_def emit_def init_def Let_def)

lemma kim_booking:
  "visits (run [CreateVisit [] ''v1'' ''T0'',
                BookVisit ''v1'' [(''helperName'', JStr ''Kim'')] ''T1''] init) =
     [[(''id'', JStr ''v1''), (''date'', JUndefined), (''startTime'', JUndefined),
       (''endTime'', JUndefined), (''bookedBy'', JStr ''Kim''), (''bookedAt'', JStr ''T1''),
       (''createdAt'', JStr ''T0'')]]"
  by (simp add: run_def create_visit_def new_visit_def book_visit_def
      saveVisits_def saveJSON_def emit_def init_def has_id_def get_prop_def Let_def)

theorem book_visit_correct_witness:
  "findIndex (has_id ''v1'')
     (visits (run [CreateVisit [] ''v1'' ''T0'',
                   BookVisit ''v1'' [(''helperName'', JStr ''Kim'')] ''T1''] init)) = Some 0 \<and>
   truthy (get_prop
     (visits (run [CreateVisit [] ''v1'' ''T0'',
                   BookVisit ''v1'' [(''helperName'', JStr ''Kim'')] ''T1''] init) ! 0) ''bookedBy'') \<and>
   fst (book_visit ''v1'' [(''helperName'', JStr ''Lee'')] ''T2''
     (run [CreateVisit [] ''v1'' ''T0'',
           BookVisit ''v1'' [(''helperName'', JStr ''Kim'')] ''T1''] init)) = Inl Conflict \<and>
   findIndex (has_id ''v1'') (visits (run [CreateVisit [] ''v1'' ''T0''] init)) = Some 0 \<and>
   absent (get_prop (visits (run [CreateVisit [] ''v1'' ''T0''] init) ! 0) ''bookedBy'') \<and>
   (\<exists>v'. fst (book_visit ''v1'' [(''helperName'', JStr ''Kim'')] ''T1''
              (run [CreateVisit [] ''v1'' ''T0''] init)) = Inr (JObj v') \<and>
         get_prop v' ''bookedBy'' = get_prop [(''helperName'', JStr ''Kim'')] ''helperName'' \<and>
         get_prop v' ''bookedAt'' = JStr ''T1'')"
proof -
  let ?booked = "run [CreateVisit [] ''v1'' ''T0'',
                      BookVisit ''v1'' [(''helperName'', JStr ''Kim'')] ''T1''] init"
  let ?free = "run [CreateVisit [] ''v1'' ''T0''] init"
  have i1: "findIndex (has_id ''v1'') (visits ?booked) = Some 0"
    by (simp add: kim_booking has_id_def get_prop_def)
  have t1: "truthy (get_prop (visits ?booked ! 0) ''bookedBy'')"
    by (simp add: kim_booking get_prop_def)
  have i2: "findIndex (has_id ''v1'') (visits ?free) = Some 0"
    by (simp add: one_visit has_id_def new_visit_def get_prop_def)
  have a2: "absent (get_prop (visits ?free ! 0) ''bookedBy'')"
    by (simp add: one_visit new_visit_def get_prop_def)
  note c = book_visit_correct [OF i1, of "[(''helperName'', JStr ''Lee'')]" "''T2''",
      THEN conjunct1, THEN mp, OF t1, THEN conjunct1]
  have c1: "fst (book_visit ''v1'' [(''helperName'', JStr ''Lee'')] ''T2'' ?booked) = Inl Conflict"
    by (simp add: c)
  from book_visit_correct [OF i2, of "[(''helperName'', JStr ''Kim'')]" "''T1''",
      THEN conjunct2, THEN mp, OF a2]
  obtain v' where v: "fst (book_visit ''v1'' [(''helperName'', JStr ''Kim'')] ''T1'' ?free)
        = Inr (JObj v')"
      "get_prop v' ''bookedBy'' = get_prop [(''helperName'', JStr ''Kim'')] ''helperName''"
      "get_prop v' ''bookedAt'' = JStr ''T1''"
    by (elim exE conjE)
  have c2: "\<exists>v'. fst (book_visit ''v1'' [(''helperName'', JStr ''Kim'')] ''T1'' ?free)
        = Inr (JObj v') \<and>
      get_prop v' ''bookedBy'' = get_prop [(''helperName'', JStr ''Kim'')] ''helperName'' \<and>
      get_prop v' ''bookedAt'' = JStr ''T1''"
    by (rule exI [of _ v'], intro conjI) (rule v)+
  show ?thesis by (intro conjI) (rule i1 t1 c1 i2 a2 c2)+
qed

section \<open>What the by-id task operations leave alone\<close>

lemma only_task_changed_refl: "only_task_changed tid st st"
  by (simp add: only_task_changed_def)

lemma only_task_changed_update:
  assumes "findIndex (has_id tid) (tasks st) = Some i"
  shows "only_task_changed tid st (st\<lparr>tasks := (tasks st)[i := t], effects := es\<rparr>)"
proof -
  from assms have "has_id tid (tasks st ! i)" "i < length (tasks st)"
    by (simp_all add: findIndex_Some)
  then have "\<forall>j<length (tasks st). \<not> has_id tid (tasks st ! j) \<longrightarrow>
      (tasks st)[i := t] ! j = tasks st ! j"
    by (auto simp: nth_list_update)
  then show ?thesis by (simp add: only_task_changed_def)
qed

lemma claim_task_frame: "only_task_changed tid st (snd (claim_task tid body now st))"
proof (cases "findIndex (has_id tid) (tasks st)")
  case None
  then show ?thesis by (simp add: claim_task_def only_task_changed_refl)
next
  case (Some i)
  show ?thesis
    by (simp add: claim_task_found [OF Some] Let_def only_task_changed_update [OF Some])
qed

lemma unclaim_task_frame: "only_task_changed tid st (snd (unclaim_task tid st))"
proof (cases "findIndex (has_id tid) (tasks st)")
  case None
  then show ?thesis by (simp add: unclaim_task_def only_task_changed_refl)
next
  case (Some i)
  show ?thesis
    by (simp add: unclaim_task_found [OF Some] Let_def only_task_changed_update [OF Some])
qed

lemma complete_task_frame: "only_task_changed tid st (snd (complete_task tid now st))"
proof (cases "findIndex (has_id tid) (tasks st)")
  case None
  then show ?thesis by (simp add: complete_task_def only_task_changed_refl)
next
  case (Some i)
  show ?thesis
    by (simp add: complete_task_found [OF Some] Let_def only_task_changed_update [OF Some])
qed

lemma update_task_frame: "only_task_changed tid st (snd (update_task tid upd st))"
proof (cases "findIndex (has_id tid) (tasks st)")
  case None
  then show ?thesis by (simp add: update_task_def only_task_changed_refl)
next
  case (Some i)
  show ?thesis
    by (simp add: update_task_found [OF Some] Let_def only_task_changed_update [OF Some])
qed

lemma two_tasks:
  "tasks (run [CreateTask [] ''u1'' ''T1'', CreateTask [] ''u2'' ''T2''] init) =
     [new_task [] ''u2'' ''T2'', new_task [] ''u1'' ''T1'']"
  by (simp add: run_def create_task_def saveTasks_def saveJSON_def emit_def init_def Let_def)

text \<open>
  Claim C10. Each of \<open>claim\<close>, \<open>unclaim\<close> and \<open>complete\<close> (and \<open>update\<close>) on an id keeps
  the number of tasks, leaves every task with a different id as it was, and leaves the
  visits, the helpers and the configuration (the PIN) as they were. On the task it
  changes, \<open>complete\<close> leaves every field but \<open>status\<close> and \<open>completedAt\<close> (so
  \<open>claimedBy\<close>) as it was, and \<open>update\<close> leaves every field the request body does not
  name.
\<close>

theorem task_ops_frame:
  "(\<forall>f\<in>{claim_task tid body now, unclaim_task tid, complete_task tid now, update_task tid upd}.
      only_task_changed tid st (snd (f st))) \<and>
   (\<forall>i. findIndex (has_id tid) (tasks st) = Some i \<longrightarrow>
      (\<forall>k. k \<notin> {''status'', ''completedAt''} \<longrightarrow>
           get_prop (tasks (snd (complete_task tid now st)) ! i) k = get_prop (tasks st ! i) k) \<and>
      (\<forall>k. k \<notin> fst ` set upd \<longrightarrow>
           get_prop (tasks (snd (update_task tid upd st)) ! i) k = get_prop (tasks st ! i) k))"
proof (intro conjI allI impI ballI)
  fix f
  assume "f \<in> {claim_task tid body now, unclaim_task tid, complete_task tid now,
                update_task tid upd}"
  then consider "f = claim_task tid body now" | "f = unclaim_task tid"
    | "f = complete_task tid now" | "f = update_task tid upd"
    by blast
  then show "only_task_changed tid st (snd (f st))"
    by cases
      (simp_all add: claim_task_frame unclaim_task_frame complete_task_frame update_task_frame)
next
  fix i k
  assume i: "findIndex (has_id tid) (tasks st) = Some i"
  then have l: "i < length (tasks st)" by (simp add: findIndex_Some)
  {
    assume "k \<notin> {''status'', ''completedAt''}"
    then show "get_prop (tasks (snd (complete_task tid now st)) ! i) k = get_prop (tasks st ! i) k"
      using l by (simp add: complete_task_found [OF i] Let_def)
  next
    assume "k \<notin> fst ` set upd"
    then show "get_prop (tasks (snd (update_task tid upd st)) ! i) k = get_prop (tasks st ! i) k"
      using l by (simp add: update_task_found [OF i] Let_def get_assign)
  }
qed

theorem task_ops_frame_witness:
  "findIndex (has_id ''u1'')
     (tasks (run [CreateTask [] ''u1'' ''T1'', CreateTask [] ''u2'' ''T2''] init)) = Some 1 \<and>
   \<not> has_id ''u1'' (tasks (run [CreateTask [] ''u1'' ''T1'', CreateTask [] ''u2'' ''T2''] init) ! 0) \<and>
   tasks (snd (claim_task ''u1'' [(''helperName'', JStr ''Sam'')] ''T3''
     (run [CreateTask [] ''u1'' ''T1'', CreateTask [] ''u2'' ''T2''] init))) ! 0 =
     tasks (run [CreateTask [] ''u1'' ''T1'', CreateTask [] ''u2'' ''T2''] init) ! 0 \<and>
   ''claimedBy'' \<notin> {''status'', ''completedAt''} \<and>
   get_prop (tasks (snd (complete_task ''u1'' ''T3''
     (run [CreateTask [] ''u1'' ''T1'', CreateTask [] ''u2'' ''T2''] init))) ! 1) ''claimedBy'' =
     get_prop (tasks (run [CreateTask [] ''u1'' ''T1'', CreateTask [] ''u2'' ''T2''] init) ! 1)
       ''claimedBy'' \<and>
   ''title'' \<notin> fst ` set [(''twin'', JStr ''B'')] \<and>
   get_prop (tasks (snd (update_task ''u1'' [(''twin'', JStr ''B'')]
     (run [CreateTask [] ''u1'' ''T1'', CreateTask [] ''u2'' ''T2''] init))) ! 1) ''title'' =
     get_prop (tasks (run [CreateTask [] ''u1'' ''T1'', CreateTask [] ''u2'' ''T2''] init) ! 1)
       ''title''"
proof -
  let ?st = "run [CreateTask [] ''u1'' ''T1'', CreateTask [] ''u2'' ''T2''] init"
  let ?b = "[(''helperName'', JStr ''Sam'')]"
  let ?u = "[(''twin'', JStr ''B'')]"
  note frame = task_ops_frame [of "''u1''" ?b "''T3''" ?u ?st]
  have i: "findIndex (has_id ''u1'') (tasks ?st) = Some 1"
    by (simp add: two_tasks has_id_new_task)
  have n: "\<not> has_id ''u1'' (tasks ?st ! 0)"
    by (simp add: two_tasks has_id_new_task)
  have l: "0 < length (tasks ?st)" by (simp add: two_tasks)
  have "only_task_changed ''u1'' ?st (snd (claim_task ''u1'' ?b ''T3'' ?st))"
    by (rule frame [THEN conjunct1, THEN bspec]) simp
  with n l have c1: "tasks (snd (claim_task ''u1'' ?b ''T3'' ?st)) ! 0 = tasks ?st ! 0"
    by (simp add: only_task_changed_def)
  have k1: "''claimedBy'' \<notin> {''status'', ''completedAt''}" by simp
  have k2: "''title'' \<notin> fst ` set ?u" by simp
  note t = frame [THEN conjunct2, THEN spec, THEN mp, OF i]
  have c2: "get_prop (tasks (snd (complete_task ''u1'' ''T3'' ?st)) ! 1) ''claimedBy'' =
      get_prop (tasks ?st ! 1) ''claimedBy''"
    by (rule t [THEN conjunct1, THEN spec, THEN mp, OF k1])
  have c3: "get_prop (tasks (snd (update_task ''u1'' ?u ?st)) ! 1) ''title'' =
      get_prop (tasks ?st ! 1) ''title''"
    by (rule t [THEN conjunct2, THEN spec, THEN mp, OF k2])
  show ?thesis by (intro conjI) (rule i n c1 k1 c2 k2 c3)+
qed

section \<open>The collections after a request\<close>

lemma run_Nil [simp]: "run [] st = st"
  by (simp add: run_def)

lemma run_snoc: "run (rs @ [r]) st = snd (handle r (run rs st))"
  by (simp add: run_def)

lemma tasks_create_task:
  "tasks (snd (create_task body uuid now st)) = new_task body uuid now # tasks st"
  by (simp add: create_task_def saveTasks_def saveJSON_def emit_def Let_def)

lemma tasks_update_task:
  "tasks (snd (update_task tid body st)) =
     (case findIndex (has_id tid) (tasks st) of
        None \<Rightarrow> tasks st
      | Some i \<Rightarrow> (tasks st)[i := assign (tasks st ! i) body])"
  by (simp add: update_task_def saveTasks_def saveJSON_def emit_def Let_def split: option.split)

lemma tasks_delete_task:
  "tasks (snd (delete_task tid st)) = filter (\<lambda>t. \<not> has_id tid t) (tasks st)"
  by (simp add: delete_task_def saveTasks_def saveJSON_def emit_def Let_def)

lemma tasks_claim_task:
  "tasks (snd (claim_task tid body now st)) =
     (case findIndex (has_id tid) (tasks st) of
        None \<Rightarrow> tasks st
      | Some i \<Rightarrow>
          (tasks st)[i := set_prop ''claimedAt'' (JStr now)
                            (set_prop ''claimedBy'' (get_prop body ''helperName'')
                              (set_prop ''status'' (JStr ''reserved'') (tasks st ! i)))])"
  by (simp add: claim_task_def saveTasks_def saveJSON_def emit_def Let_def split: option.split)

lemma tasks_unclaim_task:
  "tasks (snd (unclaim_task tid st)) =
     (case findIndex (has_id tid) (tasks st) of
        None \<Rightarrow> tasks st
      | Some i \<Rightarrow>
          (tasks st)[i := set_prop ''claimedAt'' JNull
                            (set_prop ''claimedBy'' JNull
                              (set_prop ''status'' (JStr ''waiting'') (tasks st ! i)))])"
  by (simp add: unclaim_task_def saveTasks_def saveJSON_def emit_def Let_def split: option.split)

lemma tasks_complete_task:
  "tasks (snd (complete_task tid now st)) =
     (case findIndex (has_id tid) (tasks st) of
        None \<Rightarrow> tasks st
      | Some i \<Rightarrow>
          (tasks st)[i := set_prop ''completedAt'' (JStr now)
                            (set_prop ''status'' (JStr ''done'') (tasks st ! i))])"
  by (simp add: complete_task_def saveTasks_def saveJSON_def emit_def Let_def split: option.split)

lemma tasks_create_visit: "tasks (snd (create_visit body uuid now st)) = tasks st"
  by (simp add: create_visit_def saveVisits_def saveJSON_def emit_def Let_def)

lemma tasks_book_visit: "tasks (snd (book_visit vid body now st)) = tasks st"
  by (simp add: book_visit_def saveVisits_def saveJSON_def emit_def Let_def split: option.split)

lemma tasks_unbook_visit: "tasks (snd (unbook_visit vid st)) = tasks st"
  by (simp add: unbook_visit_def saveVisits_def saveJSON_def emit_def Let_def split: option.split)

lemma tasks_delete_visit: "tasks (snd (delete_visit vid st)) = tasks st"
  by (simp add: delete_visit_def saveVisits_def saveJSON_def emit_def Let_def)

lemma tasks_register_helper: "tasks (snd (register_helper body uuid now st)) = tasks st"
  by (simp add: register_helper_def saveHelpers_def saveJSON_def emit_def Let_def
      split: option.split jsval.split)

lemma tasks_verify_pin: "tasks (snd (verify_pin body st)) = tasks st"
  by (simp add: verify_pin_def)

lemma tasks_set_pin: "tasks (snd (set_pin body st)) = tasks st"
  by (simp add: set_pin_def saveConfig_def saveJSON_def Let_def)

lemmas tasks_unchanged =
  tasks_create_visit tasks_book_visit tasks_unbook_visit tasks_delete_visit
  tasks_register_helper tasks_verify_pin tasks_set_pin

lemma all_list_update:
  "\<forall>x\<in>set xs. P x \<Longrightarrow> P y \<Longrightarrow> \<forall>x\<in>set (xs[i := y]). P x"
  using set_update_subset_insert [of xs i y] by auto

lemma all_update_first:
  assumes "\<forall>x\<in>set xs. P x" and "\<And>x. P x \<Longrightarrow> P (f x)"
  shows "\<forall>x\<in>set (case findIndex p xs of None \<Rightarrow> xs | Some i \<Rightarrow> xs[i := f (xs ! i)]). P x"
proof (cases "findIndex p xs")
  case None
  with assms(1) show ?thesis by simp
next
  case (Some i)
  then have "i < length xs" by (simp add: findIndex_Some)
  with assms have "P (f (xs ! i))" by simp
  with assms(1) have "\<forall>x\<in>set (xs[i := f (xs ! i)]). P x"
    by (rule all_list_update)
  with Some show ?thesis by simp
qed

section \<open>The status invariant\<close>

lemma status_consistent_new_task: "status_consistent (new_task body uuid now)"
  by (simp add: status_consistent_def new_task_def get_prop_def)

lemma status_consistent_claim:
  "\<not> absent h \<Longrightarrow>
   status_consistent (set_prop ''claimedAt'' (JStr now)
     (set_prop ''claimedBy'' h (set_prop ''status'' (JStr ''reserved'') t)))"
  by (simp add: status_consistent_def)

lemma status_consistent_unclaim:
  "status_consistent (set_prop ''claimedAt'' JNull
     (set_prop ''claimedBy'' JNull (set_prop ''status'' (JStr ''waiting'') t)))"
  by (simp add: status_consistent_def)

lemma status_consistent_complete:
  "status_consistent (set_prop ''completedAt'' (JStr now)
     (set_prop ''status'' (JStr ''done'') t))"
  by (simp add: status_consistent_def)

lemma status_consistent_assign:
  assumes "status_consistent t"
    and "\<forall>k\<in>{''status'', ''claimedBy'', ''claimedAt'', ''completedAt''}. k \<notin> fst ` set body"
  shows "status_consistent (assign t body)"
proof -
  from assms(2) have "get_prop (assign t body) ''status'' = get_prop t ''status''"
    "get_prop (assign t body) ''claimedBy'' = get_prop t ''claimedBy''"
    "get_prop (assign t body) ''claimedAt'' = get_prop t ''claimedAt''"
    "get_prop (assign t body) ''completedAt'' = get_prop t ''completedAt''"
    by (simp_all add: get_assign)
  with assms(1) show ?thesis by (simp add: status_consistent_def)
qed

lemma status_consistent_handle:
  assumes inv: "\<forall>t\<in>set (tasks st). status_consistent t" and r: "respects_status r"
  shows "\<forall>t\<in>set (tasks (snd (handle r st))). status_consistent t"
proof (cases r)
  case (CreateTask body uuid now)
  with inv show ?thesis by (simp add: tasks_create_task status_consistent_new_task)
next
  case (UpdateTask tid body)
  with r have "\<And>t. status_consistent t \<Longrightarrow> status_consistent (assign t body)"
    by (simp add: status_consistent_assign)
  with inv show ?thesis
    unfolding UpdateTask handle.simps tasks_update_task
    by (rule all_update_first)
next
  case (DeleteTask tid)
  with inv show ?thesis by (simp add: tasks_delete_task)
next
  case (ClaimTask tid body now)
  with r have "\<not> absent (get_prop body ''helperName'')" by simp
  then have "\<And>t. status_consistent t \<Longrightarrow>
      status_consistent (set_prop ''claimedAt'' (JStr now)
        (set_prop ''claimedBy'' (get_prop body ''helperName'')
          (set_prop ''status'' (JStr ''reserved'') t)))"
    by (rule status_consistent_claim)
  with inv show ?thesis
    unfolding ClaimTask handle.simps tasks_claim_task
    by (rule all_update_first)
next
  case (UnclaimTask tid)
  from inv show ?thesis
    unfolding UnclaimTask handle.simps tasks_unclaim_task
    by (rule all_update_first) (rule status_consistent_unclaim)
next
  case (CompleteTask tid now)
  from inv show ?thesis
    unfolding CompleteTask handle.simps tasks_complete_task
    by (rule all_update_first) (rule status_consistent_complete)
qed (use inv in \<open>simp_all add: tasks_unchanged\<close>)

lemma status_consistent_run:
  "\<forall>r\<in>set rs. respects_status r \<Longrightarrow> \<forall>t\<in>set (tasks (run rs init)). status_consistent t"
proof (induction rs rule: rev_induct)
  case Nil
  show ?case by (simp add: init_def)
next
  case (snoc r rs)
  then have "\<forall>t\<in>set (tasks (run rs init)). status_consistent t" and "respects_status r"
    by simp_all
  then show ?case unfolding run_snoc by (rule status_consistent_handle)
qed

lemmas eval_tasks =
  run_def handle.simps tasks_create_task tasks_update_task tasks_delete_task tasks_claim_task
  tasks_unclaim_task tasks_complete_task init_def new_task_def has_id_def get_prop_def
  assign_def status_fields_def

text \<open>
  Claim C1, as stated, fails in three ways. A task completed and then claimed is
  reserved with a completion time. An update that writes \<open>status\<close> makes a task
  reserved with no claim fields. A claim without a helper name makes a task reserved
  with no \<open>claimedBy\<close>.
\<close>

theorem status_invariant_counterexample:
  "map status_fields (tasks (run [CreateTask [] ''u1'' ''T1'', CompleteTask ''u1'' ''T2'',
       ClaimTask ''u1'' [(''helperName'', JStr ''Sam'')] ''T3''] init)) =
     [(JStr ''reserved'', JStr ''Sam'', JStr ''T3'', JStr ''T2'')] \<and>
   \<not> list_all task_invariant (tasks (run [CreateTask [] ''u1'' ''T1'', CompleteTask ''u1'' ''T2'',
       ClaimTask ''u1'' [(''helperName'', JStr ''Sam'')] ''T3''] init)) \<and>
   map status_fields (tasks (run [CreateTask [] ''u1'' ''T1'',
       UpdateTask ''u1'' [(''status'', JStr ''reserved'')]] init)) =
     [(JStr ''reserved'', JNull, JNull, JNull)] \<and>
   \<not> list_all task_invariant (tasks (run [CreateTask [] ''u1'' ''T1'',
       UpdateTask ''u1'' [(''status'', JStr ''reserved'')]] init)) \<and>
   map status_fields (tasks (run [CreateTask [] ''u1'' ''T1'', ClaimTask ''u1'' [] ''T2''] init)) =
     [(JStr ''reserved'', JUndefined, JStr ''T2'', JNull)] \<and>
   \<not> list_all task_invariant (tasks (run [CreateTask [] ''u1'' ''T1'',
       ClaimTask ''u1'' [] ''T2''] init))"
proof -
  let ?a = "run [CreateTask [] ''u1'' ''T1'', CompleteTask ''u1'' ''T2'',
       ClaimTask ''u1'' [(''helperName'', JStr ''Sam'')] ''T3''] init"
  let ?b = "run [CreateTask [] ''u1'' ''T1'',
       UpdateTask ''u1'' [(''status'', JStr ''reserved'')]] init"
  let ?c = "run [CreateTask [] ''u1'' ''T1'', ClaimTask ''u1'' [] ''T2''] init"
  have a: "map status_fields (tasks ?a) =
      [(JStr ''reserved'', JStr ''Sam'', JStr ''T3'', JStr ''T2'')]"
    by (simp add: eval_tasks)
  have b: "map status_fields (tasks ?b) = [(JStr ''reserved'', JNull, JNull, JNull)]"
    by (simp add: eval_tasks)
  have c: "map status_fields (tasks ?c) = [(JStr ''reserved'', JUndefined, JStr ''T2'', JNull)]"
    by (simp add: eval_tasks)
  have n: "\<And>ts s cb ca co. map status_fields ts = [(JStr ''reserved'', cb, ca, co)] \<Longrightarrow>
      absent cb \<or> absent ca \<or> \<not> absent co \<Longrightarrow> \<not> list_all task_invariant ts"
    by (auto simp: status_fields_def task_invariant_def)
  have na: "\<not> list_all task_invariant (tasks ?a)" by (rule n [OF a]) simp
  have nb: "\<not> list_all task_invariant (tasks ?b)" by (rule n [OF b]) simp
  have nc: "\<not> list_all task_invariant (tasks ?c)" by (rule n [OF c]) simp
  show ?thesis by (intro conjI) (rule a b c na nb nc)+
qed

text \<open>
  Claim C1, amended. After any sequence of requests from the empty collections in which
  every claim carries a helper name that is neither absent nor \<open>null\<close> and no update
  body names \<open>status\<close>, \<open>claimedBy\<close>, \<open>claimedAt\<close> or \<open>completedAt\<close>, every stored
  task satisfies: status \<open>waiting\<close> implies \<open>claimedBy\<close> and \<open>claimedAt\<close> absent; status
  \<open>reserved\<close> implies \<open>claimedBy\<close> and \<open>claimedAt\<close> present; status \<open>done\<close> implies
  \<open>completedAt\<close> present. (A reserved task may have a completion time.)
\<close>

theorem status_invariant_amended:
  "\<forall>r\<in>set rs. respects_status r \<Longrightarrow> \<forall>t\<in>set (tasks (run rs init)). status_consistent t"
  by (rule status_consistent_run)

theorem status_invariant_amended_witness:
  "list_all respects_status
     [CreateTask [] ''u1'' ''T1'', ClaimTask ''u1'' [(''helperName'', JStr ''Sam'')] ''T2'',
      UpdateTask ''u1'' [(''title'', JStr ''milk'')], CompleteTask ''u1'' ''T3''] \<and>
   map status_fields (tasks (run
     [CreateTask [] ''u1'' ''T1'', ClaimTask ''u1'' [(''helperName'', JStr ''Sam'')] ''T2'',
      UpdateTask ''u1'' [(''title'', JStr ''milk'')], CompleteTask ''u1'' ''T3''] init)) =
     [(JStr ''done'', JStr ''Sam'', JStr ''T2'', JStr ''T3'')] \<and>
   list_all status_consistent (tasks (run
     [CreateTask [] ''u1'' ''T1'', ClaimTask ''u1'' [(''helperName'', JStr ''Sam'')] ''T2'',
      UpdateTask ''u1'' [(''title'', JStr ''milk'')], CompleteTask ''u1'' ''T3''] init))"
proof -
  let ?rs = "[CreateTask [] ''u1'' ''T1'', ClaimTask ''u1'' [(''helperName'', JStr ''Sam'')] ''T2'',
      UpdateTask ''u1'' [(''title'', JStr ''milk'')], CompleteTask ''u1'' ''T3'']"
  have h: "list_all respects_status ?rs" by (simp add: get_prop_def)
  then have "\<forall>r\<in>set ?rs. respects_status r" by (simp only: list_all_iff)
  then have "\<forall>t\<in>set (tasks (run ?rs init)). status_consistent t"
    by (rule status_invariant_amended)
  then have c: "list_all status_consistent (tasks (run ?rs init))"
    by (simp only: list_all_iff)
  have f: "map status_fields (tasks (run ?rs init)) =
      [(JStr ''done'', JStr ''Sam'', JStr ''T2'', JStr ''T3'')]"
    by (simp add: eval_tasks)
  show ?thesis by (intro conjI) (rule h f c)+
qed

section \<open>The booking invariant\<close>

lemma visits_create_visit:
  "visits (snd (create_visit body uuid now st)) = visits st @ [new_visit body uuid now]"
  by (simp add: create_visit_def saveVisits_def saveJSON_def emit_def Let_def)

lemma visits_book_visit:
  "visits (snd (book_visit vid body now st)) =
     (case findIndex (has_id vid) (visits st) of
        None \<Rightarrow> visits st
      | Some i \<Rightarrow>
          if truthy (get_prop (visits st ! i) ''bookedBy'') then visits st
          else (visits st)[i := set_prop ''bookedAt'' (JStr now)
                 (set_prop ''bookedBy'' (get_prop body ''helperName'') (visits st ! i))])"
  by (simp add: book_visit_def saveVisits_def saveJSON_def emit_def Let_def split: option.split)

lemma visits_unbook_visit:
  "visits (snd (unbook_visit vid st)) =
     (case findIndex (has_id vid) (visits st) of
        None \<Rightarrow> visits st
      | Some i \<Rightarrow>
          (visits st)[i := set_prop ''bookedAt'' JNull (set_prop ''bookedBy'' JNull (visits st ! i))])"
  by (simp add: unbook_visit_def saveVisits_def saveJSON_def emit_def Let_def split: option.split)

lemma visits_delete_visit:
  "visits (snd (delete_visit vid st)) = filter (\<lambda>v. \<not> has_id vid v) (visits st)"
  by (simp add: delete_visit_def saveVisits_def saveJSON_def emit_def Let_def)

lemma visits_create_task: "visits (snd (create_task body uuid now st)) = visits st"
  by (simp add: create_task_def saveTasks_def saveJSON_def emit_def Let_def)

lemma visits_update_task: "visits (snd (update_task tid body st)) = visits st"
  by (simp add: update_task_def saveTasks_def saveJSON_def emit_def Let_def split: option.split)

lemma visits_delete_task: "visits (snd (delete_task tid st)) = visits st"
  by (simp add: delete_task_def saveTasks_def saveJSON_def emit_def Let_def)

lemma visits_claim_task: "visits (snd (claim_task tid body now st)) = visits st"
  by (simp add: claim_task_def saveTasks_def saveJSON_def emit_def Let_def split: option.split)

lemma visits_unclaim_task: "visits (snd (unclaim_task tid st)) = visits st"
  by (simp add: unclaim_task_def saveTasks_def saveJSON_def emit_def Let_def split: option.split)

lemma visits_complete_task: "visits (snd (complete_task tid now st)) = visits st"
  by (simp add: complete_task_def saveTasks_def saveJSON_def emit_def Let_def split: option.split)

lemma visits_register_helper: "visits (snd (register_helper body uuid now st)) = visits st"
  by (simp add: register_helper_def saveHelpers_def saveJSON_def emit_def Let_def
      split: option.split jsval.split)

lemma visits_verify_pin: "visits (snd (verify_pin body st)) = visits st"
  by (simp add: verify_pin_def)

lemma visits_set_pin: "visits (snd (set_pin body st)) = visits st"
  by (simp add: set_pin_def saveConfig_def saveJSON_def Let_def)

lemmas visits_unchanged =
  visits_create_task visits_update_task visits_delete_task visits_claim_task
  visits_unclaim_task visits_complete_task visits_register_helper visits_verify_pin
  visits_set_pin

lemma all_book_first:
  assumes "\<forall>x\<in>set xs. P x" and "\<And>x. P x \<Longrightarrow> P (f x)"
  shows "\<forall>x\<in>set (case findIndex p xs of None \<Rightarrow> xs
                   | Some i \<Rightarrow> if c (xs ! i) then xs else xs[i := f (xs ! i)]). P x"
proof (cases "findIndex p xs")
  case None
  with assms(1) show ?thesis by simp
next
  case (Some i)
  then have "i < length xs" by (simp add: findIndex_Some)
  with assms have "P (f (xs ! i))" by simp
  with assms(1) have "\<forall>x\<in>set (xs[i := f (xs ! i)]). P x"
    by (rule all_list_update)
  with assms(1) Some show ?thesis by simp
qed

lemma booker_has_time_handle:
  assumes inv: "\<forall>v\<in>set (visits st). booker_has_time v"
  shows "\<forall>v\<in>set (visits (snd (handle r st))). booker_has_time v"
proof (cases r)
  case (CreateVisit body uuid now)
  with inv show ?thesis
    by (simp add: visits_create_visit booker_has_time_def new_visit_def get_prop_def)
next
  case (BookVisit vid body now)
  from inv show ?thesis
    unfolding BookVisit handle.simps visits_book_visit
    by (rule all_book_first) (simp add: booker_has_time_def)
next
  case (UnbookVisit vid)
  from inv show ?thesis
    unfolding UnbookVisit handle.simps visits_unbook_visit
    by (rule all_update_first) (simp add: booker_has_time_def)
next
  case (DeleteVisit vid)
  with inv show ?thesis by (simp add: visits_delete_visit)
qed (use inv in \<open>simp_all add: visits_unchanged\<close>)

lemma visit_invariant_handle:
  assumes inv: "\<forall>v\<in>set (visits st). visit_invariant v" and r: "names_helper r"
  shows "\<forall>v\<in>set (visits (snd (handle r st))). visit_invariant v"
proof (cases r)
  case (CreateVisit body uuid now)
  with inv show ?thesis
    by (simp add: visits_create_visit visit_invariant_def new_visit_def get_prop_def)
next
  case (BookVisit vid body now)
  with r have "\<not> absent (get_prop body ''helperName'')" by simp
  then have "\<And>v. visit_invariant v \<Longrightarrow>
      visit_invariant (set_prop ''bookedAt'' (JStr now)
        (set_prop ''bookedBy'' (get_prop body ''helperName'') v))"
    by (simp add: visit_invariant_def)
  with inv show ?thesis
    unfolding BookVisit handle.simps visits_book_visit
    by (rule all_book_first)
next
  case (UnbookVisit vid)
  from inv show ?thesis
    unfolding UnbookVisit handle.simps visits_unbook_visit
    by (rule all_update_first) (simp add: visit_invariant_def)
next
  case (DeleteVisit vid)
  with inv show ?thesis by (simp add: visits_delete_visit)
qed (use inv in \<open>simp_all add: visits_unchanged\<close>)

lemma booker_has_time_run: "\<forall>v\<in>set (visits (run rs init)). booker_has_time v"
proof (induction rs rule: rev_induct)
  case Nil
  show ?case by (simp add: init_def)
next
  case (snoc r rs)
  then show ?case unfolding run_snoc by (rule booker_has_time_handle)
qed

lemma visit_invariant_run:
  "\<forall>r\<in>set rs. names_helper r \<Longrightarrow> \<forall>v\<in>set (visits (run rs init)). visit_invariant v"
proof (induction rs rule: rev_induct)
  case Nil
  show ?case by (simp add: init_def)
next
  case (snoc r rs)
  then have "\<forall>v\<in>set (visits (run rs init)). visit_invariant v" and "names_helper r"
    by simp_all
  then show ?case unfolding run_snoc by (rule visit_invariant_handle)
qed

lemmas eval_visits =
  run_def handle.simps visits_create_visit visits_book_visit visits_unbook_visit
  visits_delete_visit init_def new_visit_def has_id_def get_prop_def booking_fields_def

text \<open>
  Claim C2, as stated, fails: a \<open>book\<close> request without a helper name stores
  \<open>undefined\<close> as \<open>bookedBy\<close> and the current time as \<open>bookedAt\<close>.
\<close>

theorem visit_invariant_counterexample:
  "map booking_fields (visits (run [CreateVisit [] ''v1'' ''T0'', BookVisit ''v1'' [] ''T1''] init)) =
     [(JUndefined, JStr ''T1'')] \<and>
   \<not> list_all visit_invariant
       (visits (run [CreateVisit [] ''v1'' ''T0'', BookVisit ''v1'' [] ''T1''] init))"
proof -
  let ?st = "run [CreateVisit [] ''v1'' ''T0'', BookVisit ''v1'' [] ''T1''] init"
  have f: "map booking_fields (visits ?st) = [(JUndefined, JStr ''T1'')]"
    by (simp add: eval_visits)
  then have n: "\<not> list_all visit_invariant (visits ?st)"
    by (auto simp: booking_fields_def visit_invariant_def)
  show ?thesis by (intro conjI) (rule f n)+
qed

text \<open>
  Claim C2, amended. After any sequence of requests from the empty collections, with
  any inputs, every stored visit whose \<open>bookedBy\<close> is present has \<open>bookedAt\<close> present;
  and if every \<open>book\<close> request carries a helper name that is neither absent nor \<open>null\<close>,
  \<open>bookedBy\<close> is present if and only if \<open>bookedAt\<close> is.
\<close>

theorem visit_invariant_amended:
  "(\<forall>v\<in>set (visits (run rs init)).
      \<not> absent (get_prop v ''bookedBy'') \<longrightarrow> \<not> absent (get_prop v ''bookedAt'')) \<and>
   ((\<forall>r\<in>set rs. names_helper r) \<longrightarrow> (\<forall>v\<in>set (visits (run rs init)). visit_invariant v))"
  using booker_has_time_run [of rs] visit_invariant_run [of rs]
  by (simp add: booker_has_time_def)

theorem visit_invariant_amended_witness:
  "list_all names_helper
     [CreateVisit [] ''v1'' ''T0'', BookVisit ''v1'' [(''helperName'', JStr ''Kim'')] ''T1'',
      BookVisit ''v1'' [(''helperName'', JStr ''Lee'')] ''T2''] \<and>
   map booking_fields (visits (run
     [CreateVisit [] ''v1'' ''T0'', BookVisit ''v1'' [(''helperName'', JStr ''Kim'')] ''T1'',
      BookVisit ''v1'' [(''helperName'', JStr ''Lee'')] ''T2''] init)) =
     [(JStr ''Kim'', JStr ''T1'')] \<and>
   list_all visit_invariant (visits (run
     [CreateVisit [] ''v1'' ''T0'', BookVisit ''v1'' [(''helperName'', JStr ''Kim'')] ''T1'',
      BookVisit ''v1'' [(''helperName'', JStr ''Lee'')] ''T2''] init))"
proof -
  let ?rs = "[CreateVisit [] ''v1'' ''T0'',
      BookVisit ''v1'' [(''helperName'', JStr ''Kim'')] ''T1'',
      BookVisit ''v1'' [(''helperName'', JStr ''Lee'')] ''T2'']"
  have h: "list_all names_helper ?rs" by (simp add: get_prop_def)
  then have "\<forall>r\<in>set ?rs. names_helper r" by (simp only: list_all_iff)
  with visit_invariant_amended [of ?rs]
  have "\<forall>v\<in>set (visits (run ?rs init)). visit_invariant v" by (elim conjE impE)
  then have c: "list_all visit_invariant (visits (run ?rs init))"
    by (simp only: list_all_iff)
  have f: "map booking_fields (visits (run ?rs init)) = [(JStr ''Kim'', JStr ''T1'')]"
    by (simp add: eval_visits)
  show ?thesis by (intro conjI) (rule h f c)+
qed

section \<open>Task identifiers\<close>

lemma created_task_ids_snoc:
  "created_task_ids (rs @ [r]) =
     created_task_ids rs @ (case r of CreateTask body uuid now \<Rightarrow> [uuid] | _ \<Rightarrow> [])"
  by (induction rs rule: created_task_ids.induct) (auto split: request.splits)

lemma map_update_same:
  "i < length xs \<Longrightarrow> f y = f (xs ! i) \<Longrightarrow> map f (xs[i := y]) = map f xs"
  by (simp add: map_update list_update_same_conv)

lemma task_ids_update_first:
  assumes "\<And>t. task_id (f t) = task_id t"
  shows "map task_id (case findIndex p xs of None \<Rightarrow> xs | Some i \<Rightarrow> xs[i := f (xs ! i)])
    = map task_id xs"
proof (cases "findIndex p xs")
  case None
  then show ?thesis by simp
next
  case (Some i)
  then have "i < length xs" by (simp add: findIndex_Some)
  then have "map task_id (xs[i := f (xs ! i)]) = map task_id xs"
    using assms by (rule map_update_same)
  with Some show ?thesis by simp
qed

lemma task_ids_handle:
  assumes "keeps_id r"
  shows "map task_id (tasks (snd (handle r st))) =
    (case r of
       CreateTask body uuid now \<Rightarrow> JStr uuid # map task_id (tasks st)
     | DeleteTask tid \<Rightarrow> map task_id (filter (\<lambda>t. \<not> has_id tid t) (tasks st))
     | _ \<Rightarrow> map task_id (tasks st))"
proof (cases r)
  case (CreateTask body uuid now)
  then show ?thesis
    by (simp add: tasks_create_task) (simp add: task_id_def new_task_def get_prop_def)
next
  case (UpdateTask tid body)
  with assms have "\<And>t. task_id (assign t body) = task_id t"
    by (simp add: task_id_def get_assign)
  then show ?thesis
    unfolding UpdateTask handle.simps tasks_update_task request.case
    by (rule task_ids_update_first)
next
  case (DeleteTask tid)
  then show ?thesis by (simp add: tasks_delete_task)
next
  case (ClaimTask tid body now)
  show ?thesis
    unfolding ClaimTask handle.simps tasks_claim_task request.case
    by (rule task_ids_update_first) (simp add: task_id_def)
next
  case (UnclaimTask tid)
  show ?thesis
    unfolding UnclaimTask handle.simps tasks_unclaim_task request.case
    by (rule task_ids_update_first) (simp add: task_id_def)
next
  case (CompleteTask tid now)
  show ?thesis
    unfolding CompleteTask handle.simps tasks_complete_task request.case
    by (rule task_ids_update_first) (simp add: task_id_def)
qed (simp_all add: tasks_unchanged)

lemma task_ids_run:
  assumes "distinct (created_task_ids rs)" and "\<forall>r\<in>set rs. keeps_id r"
  shows "distinct (map task_id (tasks (run rs init))) \<and>
    set (map task_id (tasks (run rs init))) \<subseteq> JStr ` set (created_task_ids rs)"
  using assms
proof (induction rs rule: rev_induct)
  case Nil
  show ?case by (simp add: init_def)
next
  case (snoc r rs)
  let ?ids = "map task_id (tasks (run rs init))"
  from snoc.prems have d: "distinct (created_task_ids rs)" and k: "keeps_id r"
    and ks: "\<forall>r\<in>set rs. keeps_id r"
    by (simp_all add: created_task_ids_snoc)
  from snoc.IH [OF d ks] have dist: "distinct ?ids"
    and sub: "set ?ids \<subseteq> JStr ` set (created_task_ids rs)"
    by simp_all
  have step: "map task_id (tasks (run (rs @ [r]) init)) =
      (case r of
         CreateTask body uuid now \<Rightarrow> JStr uuid # ?ids
       | DeleteTask tid \<Rightarrow> map task_id (filter (\<lambda>t. \<not> has_id tid t) (tasks (run rs init)))
       | _ \<Rightarrow> ?ids)"
    unfolding run_snoc by (rule task_ids_handle [OF k])
  note cr = created_task_ids_snoc [of rs r]
  consider (create) body uuid now where "r = CreateTask body uuid now"
    | (delete) tid where "r = DeleteTask tid"
    | (other) "map task_id (tasks (run (rs @ [r]) init)) = ?ids"
        "created_task_ids (rs @ [r]) = created_task_ids rs"
    using step cr by (cases r) simp_all
  then show ?case
  proof cases
    case create
    with snoc.prems have "uuid \<notin> set (created_task_ids rs)"
      by (simp add: created_task_ids_snoc)
    with sub have n: "JStr uuid \<notin> set ?ids" by auto
    from step cr have e: "map task_id (tasks (run (rs @ [r]) init)) = JStr uuid # ?ids"
      "created_task_ids (rs @ [r]) = created_task_ids rs @ [uuid]"
      by (simp_all add: create)
    from dist sub n show ?thesis unfolding e by auto
  next
    case delete
    from step cr have e: "map task_id (tasks (run (rs @ [r]) init)) =
        map task_id (filter (\<lambda>t. \<not> has_id tid t) (tasks (run rs init)))"
      "created_task_ids (rs @ [r]) = created_task_ids rs"
      by (simp_all add: delete)
    from dist sub show ?thesis unfolding e by (auto simp: distinct_map_filter)
  next
    case other
    from dist sub show ?thesis unfolding other by simp
  qed
qed

lemmas eval_task_ids =
  run_def handle.simps tasks_create_task tasks_update_task tasks_delete_task tasks_claim_task
  tasks_unclaim_task tasks_complete_task init_def new_task_def has_id_def get_prop_def
  assign_def task_id_def

text \<open>
  Claim C8, as stated, fails: an update whose body names \<open>id\<close> overwrites the
  identifier, here with that of another stored task.
\<close>

theorem task_ids_counterexample:
  "distinct (created_task_ids [CreateTask [] ''u1'' ''T1'', CreateTask [] ''u2'' ''T2'',
      UpdateTask ''u2'' [(''id'', JStr ''u1'')]]) \<and>
   map task_id (tasks (run [CreateTask [] ''u1'' ''T1'', CreateTask [] ''u2'' ''T2'',
      UpdateTask ''u2'' [(''id'', JStr ''u1'')]] init)) = [JStr ''u1'', JStr ''u1''] \<and>
   \<not> distinct (map task_id (tasks (run [CreateTask [] ''u1'' ''T1'', CreateTask [] ''u2'' ''T2'',
      UpdateTask ''u2'' [(''id'', JStr ''u1'')]] init)))"
proof -
  let ?rs = "[CreateTask [] ''u1'' ''T1'', CreateTask [] ''u2'' ''T2'',
      UpdateTask ''u2'' [(''id'', JStr ''u1'')]]"
  have d: "distinct (created_task_ids ?rs)" by simp
  have e: "map task_id (tasks (run ?rs init)) = [JStr ''u1'', JStr ''u1'']"
    by (simp add: eval_task_ids)
  have n: "\<not> distinct (map task_id (tasks (run ?rs init)))"
    unfolding e by simp
  show ?thesis by (intro conjI) (rule d e n)+
qed

text \<open>
  Claim C8, amended. After any sequence of requests from the empty collections in which
  no update body names \<open>id\<close>, and given that the identifier generator never returns the
  same identifier twice, no two stored tasks have the same \<open>id\<close>.
\<close>

theorem task_ids_unique:
  "distinct (created_task_ids rs) \<Longrightarrow> \<forall>r\<in>set rs. keeps_id r \<Longrightarrow>
   distinct (map task_id (tasks (run rs init)))"
  using task_ids_run [of rs] by simp

theorem task_ids_unique_witness:
  "distinct (created_task_ids [CreateTask [] ''u1'' ''T1'', CreateTask [] ''u2'' ''T2'',
      UpdateTask ''u2'' [(''title'', JStr ''milk'')], ClaimTask ''u1'' [] ''T3'']) \<and>
   list_all keeps_id [CreateTask [] ''u1'' ''T1'', CreateTask [] ''u2'' ''T2'',
      UpdateTask ''u2'' [(''title'', JStr ''milk'')], ClaimTask ''u1'' [] ''T3''] \<and>
   map task_id (tasks (run [CreateTask [] ''u1'' ''T1'', CreateTask [] ''u2'' ''T2'',
      UpdateTask ''u2'' [(''title'', JStr ''milk'')], ClaimTask ''u1'' [] ''T3''] init)) =
     [JStr ''u2'', JStr ''u1''] \<and>
   distinct (map task_id (tasks (run [CreateTask [] ''u1'' ''T1'', CreateTask [] ''u2'' ''T2'',
      UpdateTask ''u2'' [(''title'', JStr ''milk'')], ClaimTask ''u1'' [] ''T3''] init)))"
proof -
  let ?rs = "[CreateTask [] ''u1'' ''T1'', CreateTask [] ''u2'' ''T2'',
      UpdateTask ''u2'' [(''title'', JStr ''milk'')], ClaimTask ''u1'' [] ''T3'']"
  have d: "distinct (created_task_ids ?rs)" by simp
  have k: "list_all keeps_id ?rs" by simp
  then have "\<forall>r\<in>set ?rs. keeps_id r" by (simp only: list_all_iff)
  with d have c: "distinct (map task_id (tasks (run ?rs init)))"
    by (rule task_ids_unique)
  have e: "map task_id (tasks (run ?rs init)) = [JStr ''u2'', JStr ''u1'']"
    by (simp add: eval_task_ids)
  show ?thesis by (intro conjI) (rule d k e c)+
qed

end
